theory Spec2Isabelle
  imports Complex_Main
begin

section \<open>JavaScript values and the runtime\<close>

text \<open>
  A JavaScript number is an IEEE 754 double: a finite value, one of the two infinities, or
  NaN. \<open>Num x\<close> is the finite double whose value is the real \<open>x\<close>; the sign of a zero
  is not represented. A \<^verbatim>\<open>Number.isFinite\<close> guard is the pattern \<open>Num x\<close>.
\<close>

datatype jsnum = Num real | Infinity | NegInfinity | NaN

subsection \<open>Rounding to a double\<close>

text \<open>\<open>ilog2 n\<close> is the integer binary logarithm of \<open>n \<ge> 1\<close>, rounded down.\<close>

function ilog2 :: "int \<Rightarrow> int" where
  "ilog2 n = (if n < 2 then 0 else 1 + ilog2 (n div 2))"
  by pat_completeness auto
termination
  by (relation "measure nat") auto

declare ilog2.simps [simp del]

text \<open>The binary exponent of a real \<open>x \<noteq> 0\<close>: the \<open>e\<close> with \<open>2\<^sup>e \<le> |x| < 2\<^sup>e\<^sup>+\<^sup>1\<close>.\<close>

definition binexp :: "real \<Rightarrow> int" where
  "binexp x =
     (if 1 \<le> \<bar>x\<bar> then ilog2 \<lfloor>\<bar>x\<bar>\<rfloor>
      else - (1 + ilog2 (\<lceil>1 / \<bar>x\<bar>\<rceil> - 1)))"

text \<open>The nearest integer, a tie going to the even one.\<close>

definition roundTiesToEven :: "real \<Rightarrow> int" where
  "roundTiesToEven t =
     (let f = \<lfloor>t\<rfloor>; d = t - of_int f
      in if d < 1 / 2 then f
         else if 1 / 2 < d then f + 1
         else if even f then f else f + 1)"

text \<open>
  \<open>fl x\<close> is the double that an arithmetic operation returns when its exact result is
  \<open>x\<close> (binary64, round to nearest, ties to even): \<open>x\<close> is rounded to a multiple of
  \<open>2\<^sup>e\<^sup>-\<^sup>5\<^sup>2\<close>, where \<open>e\<close> is its binary exponent and at least \<open>-1022\<close> (below that the
  doubles are subnormal, spaced \<open>2\<^sup>-\<^sup>1\<^sup>0\<^sup>7\<^sup>4\<close> apart), and a result that reaches \<open>2\<^sup>1\<^sup>0\<^sup>2\<^sup>4\<close>
  overflows to an infinity.
\<close>

definition fl :: "real \<Rightarrow> jsnum" where
  "fl x =
     (if x = 0 then Num 0
      else
        let e = max (binexp x) (- 1022);
            q = 2 powi (e - 52);
            y = of_int (roundTiesToEven (x / q)) * q
        in if 2 ^ 1024 \<le> \<bar>y\<bar> then (if 0 < x then Infinity else NegInfinity)
           else Num y)"

subsection \<open>Arithmetic\<close>

text \<open>The sign of a number that is not NaN.\<close>

fun signOf :: "jsnum \<Rightarrow> real" where
  "signOf (Num a) = sgn a"
| "signOf Infinity = 1"
| "signOf NegInfinity = - 1"
| "signOf NaN = 0"

text \<open>\<^verbatim>\<open>x + y\<close>\<close>

fun js_add :: "jsnum \<Rightarrow> jsnum \<Rightarrow> jsnum" where
  "js_add (Num a) (Num b) = fl (a + b)"
| "js_add NaN y = NaN"
| "js_add x NaN = NaN"
| "js_add Infinity NegInfinity = NaN"
| "js_add NegInfinity Infinity = NaN"
| "js_add Infinity y = Infinity"
| "js_add NegInfinity y = NegInfinity"
| "js_add (Num a) y = y"

text \<open>\<^verbatim>\<open>x * y\<close>: with an infinite factor the result is an infinity, or NaN when the other factor is zero.\<close>

fun js_mul :: "jsnum \<Rightarrow> jsnum \<Rightarrow> jsnum" where
  "js_mul (Num a) (Num b) = fl (a * b)"
| "js_mul NaN y = NaN"
| "js_mul x NaN = NaN"
| "js_mul x y =
     (if signOf x * signOf y = 0 then NaN
      else if 0 < signOf x * signOf y then Infinity else NegInfinity)"

text \<open>
  \<^verbatim>\<open>x / y\<close>. A zero divisor is taken as \<open>+0\<close>; the program divides by 10, by 100 and by
  a body weight that it has tested to be finite and greater than zero, never by a zero.
\<close>

fun js_div :: "jsnum \<Rightarrow> jsnum \<Rightarrow> jsnum" where
  "js_div (Num a) (Num b) =
     (if b = 0 then (if a = 0 then NaN else if 0 < a then Infinity else NegInfinity)
      else fl (a / b))"
| "js_div NaN y = NaN"
| "js_div x NaN = NaN"
| "js_div (Num a) y = Num 0"
| "js_div x (Num b) = (if 0 < signOf x * (if b = 0 then 1 else sgn b) then Infinity else NegInfinity)"
| "js_div x y = NaN"

text \<open>
  \<^verbatim>\<open>Math.round\<close>: the nearest integer, a tie going up; an infinity and NaN are returned
  unchanged. The result is a double whenever the argument is one.
\<close>

fun Math_round :: "jsnum \<Rightarrow> jsnum" where
  "Math_round (Num x) = Num (of_int \<lfloor>x + 1 / 2\<rfloor>)"
| "Math_round x = x"

text \<open>
  \<^verbatim>\<open>new Date(ms).getTime()\<close> for a number \<open>ms\<close>: the time value is \<open>ms\<close> truncated
  towards zero, and the date is invalid (\<open>None\<close>, a NaN time value) when \<open>ms\<close> is not
  finite or lies beyond 8.64e15 milliseconds on either side of the epoch.
\<close>

definition newDate :: "jsnum \<Rightarrow> int option" where
  "newDate ms =
     (case ms of
        Num x \<Rightarrow>
          if \<bar>x\<bar> \<le> 8640000000000000
          then Some (if 0 \<le> x then \<lfloor>x\<rfloor> else \<lceil>x\<rceil>)
          else None
      | _ \<Rightarrow> None)"

text \<open>
  The built-in functions whose results are fixed by the JavaScript engine and not by this
  program are parameters of the model:
  \<^item> \<open>Number_of_string s\<close> is \<^verbatim>\<open>Number(s)\<close> for a string;
  \<^item> \<open>String_trim s\<close> is \<^verbatim>\<open>s.trim()\<close>;
  \<^item> \<open>Date_parse s\<close> is \<^verbatim>\<open>new Date(s).getTime()\<close> for a string, \<open>None\<close> when
    the date is invalid (the formats accepted beyond ISO-8601 depend on the engine);
  \<^item> \<open>Date_toISOString t\<close> is \<^verbatim>\<open>toISOString\<close> of the valid date with time value \<open>t\<close>;
  \<^item> \<open>String_of_number n\<close> is \<^verbatim>\<open>String(n)\<close> for a number.
\<close>

record js_runtime =
  Number_of_string :: "string \<Rightarrow> jsnum"
  String_trim :: "string \<Rightarrow> string"
  Date_parse :: "string \<Rightarrow> int option"
  Date_toISOString :: "int \<Rightarrow> string"
  String_of_number :: "jsnum \<Rightarrow> string"

text \<open>The operator \<^verbatim>\<open>a ?? b\<close> on a nullable value.\<close>

definition nullish :: "'a option \<Rightarrow> 'a option \<Rightarrow> 'a option" where
  "nullish a b = (case a of None \<Rightarrow> b | Some v \<Rightarrow> Some v)"

section \<open>timeRange.ts\<close>

text \<open>\<^verbatim>\<open>trimmed.replace(/\//g, "-")\<close>\<close>

definition replaceSlashes :: "string \<Rightarrow> string" where
  "replaceSlashes s = map (\<lambda>c. if c = CHR ''/'' then CHR ''-'' else c) s"

text \<open>The last two attempts of \<open>parseTimestamp\<close>: the string as it is, then with slashes replaced.\<close>

definition parseDateString :: "js_runtime \<Rightarrow> string \<Rightarrow> int option" where
  "parseDateString rt trimmed =
     (case Date_parse rt trimmed of
        Some d \<Rightarrow> Some d
      | None \<Rightarrow> Date_parse rt (replaceSlashes trimmed))"

text \<open>
  The test \<^verbatim>\<open>num >= 1e9 && num < 1e15\<close> on a finite number, and the constant
  \<^verbatim>\<open>ms = num < 1e12 ? num * 1000 : num\<close>; both are written twice in the source, in
  \<open>parseTimestamp\<close> and in \<open>getCellTimestamp\<close>.
\<close>

definition isEpochLike :: "real \<Rightarrow> bool" where
  "isEpochLike num = (1000000000 \<le> num \<and> num < 1000000000000000)"

definition epochMillis :: "real \<Rightarrow> jsnum" where
  "epochMillis num =
     (if num < 1000000000000 then js_mul (Num num) (Num 1000) else Num num)"

text \<open>
  \<open>parseTimestamp\<close> returns the time value (milliseconds since the epoch) of the date it
  builds, \<open>None\<close> for \<^verbatim>\<open>null\<close>.
\<close>

definition parseTimestamp :: "js_runtime \<Rightarrow> string \<Rightarrow> int option" where
  "parseTimestamp rt ts =
     (if ts = [] then None
      else
        let trimmed = String_trim rt ts in
        if trimmed = [] then None
        else
          (case Number_of_string rt trimmed of
             Num num \<Rightarrow>
               if isEpochLike num then newDate (epochMillis num)
               else parseDateString rt trimmed
           | _ \<Rightarrow> parseDateString rt trimmed))"

section \<open>sheetApi.ts\<close>

record LogRow =
  timestamp :: string
  bp :: "jsnum option"
  sq :: "jsnum option"
  dl :: "jsnum option"
  bodyWeight :: "jsnum option"

text \<open>A cell value \<^verbatim>\<open>v\<close> of the sheet is a string or a number.\<close>

datatype cellval = VStr string | VNum jsnum

record GvizCell =
  v :: "cellval option"
  f :: "string option"

text \<open>\<^verbatim>\<open>Number(x)\<close> and \<^verbatim>\<open>String(x)\<close> for a cell value.\<close>

fun Number_of_cellval :: "js_runtime \<Rightarrow> cellval \<Rightarrow> jsnum" where
  "Number_of_cellval rt (VStr s) = Number_of_string rt s"
| "Number_of_cellval rt (VNum n) = n"

fun String_of_cellval :: "js_runtime \<Rightarrow> cellval \<Rightarrow> string" where
  "String_of_cellval rt (VStr s) = s"
| "String_of_cellval rt (VNum n) = String_of_number rt n"

definition getCellNumber :: "js_runtime \<Rightarrow> GvizCell option \<Rightarrow> jsnum option" where
  "getCellNumber rt c =
     (case c of
        None \<Rightarrow> None
      | Some cell \<Rightarrow>
          (case v cell of
             None \<Rightarrow> None
           | Some x \<Rightarrow>
               if x = VStr [] then None
               else (case Number_of_cellval rt x of
                       Num n \<Rightarrow> Some (Num n)
                     | _ \<Rightarrow> None)))"

text \<open>
  \<open>getCellTimestamp\<close> can fail in one place only: \<^verbatim>\<open>toISOString\<close> throws a
  \<^verbatim>\<open>RangeError\<close> on an invalid date.
\<close>

datatype error = RangeError

text \<open>\<^verbatim>\<open>raw = c.v ?? c.f\<close>\<close>

definition cellRaw :: "GvizCell \<Rightarrow> cellval option" where
  "cellRaw cell = nullish (v cell) (map_option VStr (f cell))"

text \<open>
  \<^verbatim>\<open>String(c.f ?? c.v)\<close>, where \<open>raw\<close> is known not to be \<^verbatim>\<open>null\<close>: when
  \<^verbatim>\<open>c.f\<close> is missing, \<open>raw\<close> is \<^verbatim>\<open>c.v\<close>.
\<close>

definition cellDisplay :: "js_runtime \<Rightarrow> GvizCell \<Rightarrow> cellval \<Rightarrow> string" where
  "cellDisplay rt cell raw =
     (case f cell of Some s \<Rightarrow> s | None \<Rightarrow> String_of_cellval rt raw)"

definition getCellTimestamp :: "js_runtime \<Rightarrow> GvizCell option \<Rightarrow> error + string" where
  "getCellTimestamp rt c =
     (case c of
        None \<Rightarrow> Inr []
      | Some cell \<Rightarrow>
          (case cellRaw cell of
             None \<Rightarrow> Inr []
           | Some raw \<Rightarrow>
               if raw = VStr [] then Inr []
               else
                 (case Number_of_cellval rt raw of
                    Num num \<Rightarrow>
                      if isEpochLike num
                      then
                        (case newDate (epochMillis num) of
                           None \<Rightarrow> Inl RangeError
                         | Some t \<Rightarrow> Inr (Date_toISOString rt t))
                      else Inr (cellDisplay rt cell raw)
                  | _ \<Rightarrow> Inr (cellDisplay rt cell raw))))"

section \<open>ChartCard.tsx\<close>

text \<open>
  \<open>toNum\<close> on a field of a row: \<^verbatim>\<open>null\<close> and the non-finite numbers become
  \<^verbatim>\<open>null\<close>, a finite number is kept. The fields of a row are numbers or
  \<^verbatim>\<open>null\<close>, so the test for the empty string never applies.
\<close>

definition toNum :: "jsnum option \<Rightarrow> real option" where
  "toNum x = (case x of Some (Num n) \<Rightarrow> Some n | _ \<Rightarrow> None)"

text \<open>
  The comparator of the sort subtracts two keys, the time value of a row or
  \<^verbatim>\<open>Infinity\<close> for a row whose timestamp does not parse. The difference of two
  infinities is NaN, which \<^verbatim>\<open>Array.prototype.sort\<close> reads as 0: two such rows
  compare equal. So the comparator is the order of the keys below, and the sort, which is
  stable, is \<open>sort_key\<close>.
\<close>

datatype sortkey = At int | Never

instantiation sortkey :: linorder
begin

fun less_eq_sortkey :: "sortkey \<Rightarrow> sortkey \<Rightarrow> bool" where
  "less_eq_sortkey (At a) (At b) = (a \<le> b)"
| "less_eq_sortkey (At a) Never = True"
| "less_eq_sortkey Never (At b) = False"
| "less_eq_sortkey Never Never = True"

definition less_sortkey :: "sortkey \<Rightarrow> sortkey \<Rightarrow> bool" where
  "less_sortkey x y = (x \<le> y \<and> \<not> y \<le> x)"

instance
proof
  fix x y z :: sortkey
  show "(x < y) = (x \<le> y \<and> \<not> y \<le> x)"
    by (simp add: less_sortkey_def)
  show "x \<le> x"
    by (cases x) simp_all
  show "x \<le> y \<Longrightarrow> y \<le> z \<Longrightarrow> x \<le> z"
    by (cases x; cases y; cases z) simp_all
  show "x \<le> y \<Longrightarrow> y \<le> x \<Longrightarrow> x = y"
    by (cases x; cases y) simp_all
  show "x \<le> y \<or> y \<le> x"
    by (cases x; cases y) auto
qed

end

definition timeKey :: "js_runtime \<Rightarrow> LogRow \<Rightarrow> sortkey" where
  "timeKey rt row =
     (case parseTimestamp rt (timestamp row) of Some t \<Rightarrow> At t | None \<Rightarrow> Never)"

text \<open>
  The body of the \<^verbatim>\<open>map\<close> in \<open>sortAndFillBpSqDl\<close>, with the three mutable locals
  \<^verbatim>\<open>lastBp\<close>, \<^verbatim>\<open>lastSq\<close>, \<^verbatim>\<open>lastDl\<close> passed as a state.
\<close>

type_synonym fillstate = "real option \<times> real option \<times> real option"

fun fillRows :: "fillstate \<Rightarrow> LogRow list \<Rightarrow> LogRow list" where
  "fillRows st [] = []"
| "fillRows (lastBp, lastSq, lastDl) (row # rest) =
     (let b = toNum (bp row);
          s = toNum (sq row);
          d = toNum (dl row);
          lastBp' = (if b \<noteq> None then b else lastBp);
          lastSq' = (if s \<noteq> None then s else lastSq);
          lastDl' = (if d \<noteq> None then d else lastDl)
      in row\<lparr>bp := map_option Num (nullish b lastBp'),
              sq := map_option Num (nullish s lastSq'),
              dl := map_option Num (nullish d lastDl')\<rparr>
         # fillRows (lastBp', lastSq', lastDl') rest)"

definition sortAndFillBpSqDl :: "js_runtime \<Rightarrow> LogRow list \<Rightarrow> LogRow list" where
  "sortAndFillBpSqDl rt rows = fillRows (None, None, None) (sort_key (timeKey rt) rows)"

datatype NumericDataKey = Total | Bp | Sq | Dl | BodyWeight

definition RATIO_KEYS :: "NumericDataKey list" where
  "RATIO_KEYS = [Total, Bp, Sq, Dl]"

text \<open>
  A point of \<^verbatim>\<open>chartData\<close>. The key \<^verbatim>\<open>`${dataKey}Ratio`\<close> is not set
  (\<open>Unset\<close>), set to \<^verbatim>\<open>null\<close> (\<open>RatioNull\<close>) or set to a number.
\<close>

datatype ratio = Unset | RatioNull | Ratio jsnum

record ChartPoint =
  c_timestamp :: string
  c_bp :: "real option"
  c_sq :: "real option"
  c_dl :: "real option"
  c_total :: "jsnum option"
  c_bodyWeight :: "real option"
  c_ratio :: ratio

definition useRatio :: "bool \<Rightarrow> NumericDataKey \<Rightarrow> bool" where
  "useRatio weightRatio dataKey =
     (weightRatio \<and> dataKey \<in> set RATIO_KEYS \<and> dataKey \<noteq> BodyWeight)"

text \<open>
  The function mapped over the filled rows to build \<^verbatim>\<open>chartData\<close>. The test
  \<^verbatim>\<open>row.bp != null && Number.isFinite(row.bp) ? row.bp : null\<close> keeps a finite number
  and turns everything else into \<^verbatim>\<open>null\<close>, which is \<open>toNum\<close> on a field of a row.
  The lifts and the body weight of a point are finite, so they are reals here; the total
  can overflow to an infinity, so it is a number. The test \<^verbatim>\<open>raw != null &&
  Number.isFinite(raw)\<close> on \<^verbatim>\<open>base[dataKey]\<close> is \<open>toNum raw\<close>.
\<close>

definition chartPoint :: "bool \<Rightarrow> NumericDataKey \<Rightarrow> LogRow \<Rightarrow> ChartPoint" where
  "chartPoint weightRatio dataKey row =
     (let b = toNum (bp row);
          s = toNum (sq row);
          d = toNum (dl row);
          tot = (case (b, s, d) of
                   (Some x, Some y, Some z) \<Rightarrow>
                     Some (js_div (Math_round (js_mul (js_add (js_add (Num x) (Num y)) (Num z))
                                                      (Num 10)))
                                  (Num 10))
                 | _ \<Rightarrow> None);
          bw = toNum (bodyWeight row);
          raw = (case dataKey of
                   Total \<Rightarrow> tot
                 | Bp \<Rightarrow> map_option Num b
                 | Sq \<Rightarrow> map_option Num s
                 | Dl \<Rightarrow> map_option Num d
                 | BodyWeight \<Rightarrow> map_option Num bw)
      in \<lparr>c_timestamp = timestamp row, c_bp = b, c_sq = s, c_dl = d, c_total = tot,
          c_bodyWeight = bw,
          c_ratio =
            (case bw of
               Some w \<Rightarrow>
                 if useRatio weightRatio dataKey \<and> 0 < w
                 then (case toNum raw of
                         Some x \<Rightarrow>
                           Ratio (js_div (Math_round (js_mul (js_div (Num x) (Num w)) (Num 100)))
                                         (Num 100))
                       | None \<Rightarrow> RatioNull)
                 else Unset
             | None \<Rightarrow> Unset)\<rparr>)"

definition chartData :: "js_runtime \<Rightarrow> bool \<Rightarrow> NumericDataKey \<Rightarrow> LogRow list \<Rightarrow> ChartPoint list" where
  "chartData rt weightRatio dataKey data =
     map (chartPoint weightRatio dataKey) (sortAndFillBpSqDl rt data)"

section \<open>App.tsx\<close>

text \<open>
  The rows whose timestamp parses, each with its time value: the \<^verbatim>\<open>map\<close> and
  \<^verbatim>\<open>filter\<close> that open \<open>getLatestRow\<close> and \<open>latestBodyWeight\<close>.
\<close>

definition withDate :: "js_runtime \<Rightarrow> LogRow list \<Rightarrow> (LogRow \<times> int) list" where
  "withDate rt rows =
     List.map_filter
       (\<lambda>row. map_option (\<lambda>date. (row, date)) (parseTimestamp rt (timestamp row))) rows"

definition getLatestRow :: "js_runtime \<Rightarrow> LogRow list \<Rightarrow> LogRow option" where
  "getLatestRow rt rows =
     (if rows = [] then None
      else
        let wd = withDate rt rows in
        if wd = [] then None
        else Some (fst (last (sort_key snd wd))))"

text \<open>The \<^verbatim>\<open>for\<close> loop of \<open>latestBodyWeight\<close>.\<close>

fun firstBodyWeight :: "(LogRow \<times> int) list \<Rightarrow> real option" where
  "firstBodyWeight [] = None"
| "firstBodyWeight ((row, date) # rest) =
     (case bodyWeight row of
        Some (Num bw) \<Rightarrow> if 0 < bw then Some bw else firstBodyWeight rest
      | _ \<Rightarrow> firstBodyWeight rest)"

text \<open>
  The comparator \<^verbatim>\<open>b.date.getTime() - a.date.getTime()\<close> sorts by descending time
  value, and the sort is stable: it is \<open>sort_key\<close> on the negated time value.
\<close>

definition latestBodyWeight :: "js_runtime \<Rightarrow> LogRow list \<Rightarrow> real option" where
  "latestBodyWeight rt rows = firstBodyWeight (sort_key (\<lambda>x. - snd x) (withDate rt rows))"

definition nums :: "(LogRow \<Rightarrow> jsnum option) \<Rightarrow> LogRow list \<Rightarrow> real list" where
  "nums key rows = List.map_filter toNum (map key rows)"

text \<open>\<^verbatim>\<open>xs.length ? Math.max(...xs) : null\<close>\<close>

definition maxOrNull :: "real list \<Rightarrow> real option" where
  "maxOrNull xs = (case xs of [] \<Rightarrow> None | x # rest \<Rightarrow> Some (fold max rest x))"

record BestStats =
  maxBP :: "jsnum option"
  maxSQ :: "jsnum option"
  maxDL :: "jsnum option"
  total :: "jsnum option"

definition bestStats :: "LogRow list \<Rightarrow> BestStats" where
  "bestStats rows =
     (let mBP = maxOrNull (nums bp rows);
          mSQ = maxOrNull (nums sq rows);
          mDL = maxOrNull (nums dl rows)
      in \<lparr>maxBP = map_option Num mBP, maxSQ = map_option Num mSQ, maxDL = map_option Num mDL,
          total = (case (mBP, mSQ, mDL) of
                     (Some x, Some y, Some z) \<Rightarrow>
                       Some (js_div (Math_round (js_mul (js_add (js_add (Num x) (Num y)) (Num z))
                                                        (Num 10)))
                                    (Num 10))
                   | _ \<Rightarrow> None)\<rparr>)"

definition round2 :: "jsnum \<Rightarrow> jsnum" where
  "round2 n = js_div (Math_round (js_mul n (Num 100))) (Num 100)"

definition bestStatsRatios :: "js_runtime \<Rightarrow> LogRow list \<Rightarrow> BestStats" where
  "bestStatsRatios rt rows =
     (case latestBodyWeight rt rows of
        None \<Rightarrow> \<lparr>maxBP = None, maxSQ = None, maxDL = None, total = None\<rparr>
      | Some w \<Rightarrow>
          if w \<le> 0 then \<lparr>maxBP = None, maxSQ = None, maxDL = None, total = None\<rparr>
          else
            \<lparr>maxBP = map_option (\<lambda>m. round2 (js_div m (Num w))) (maxBP (bestStats rows)),
             maxSQ = map_option (\<lambda>m. round2 (js_div m (Num w))) (maxSQ (bestStats rows)),
             maxDL = map_option (\<lambda>m. round2 (js_div m (Num w))) (maxDL (bestStats rows)),
             total = map_option (\<lambda>m. round2 (js_div m (Num w))) (total (bestStats rows))\<rparr>)"

section \<open>A runtime for the examples\<close>

text \<open>
  The examples below are evaluated with \<open>example_runtime\<close>. It returns what
  ECMAScript prescribes at the strings and numbers the examples use (a decimal string
  converts to the nearest double; the date-only form \<^verbatim>\<open>YYYY-MM-DD\<close> is midnight UTC;
  a string that is not a numeric literal converts to NaN; a signed run of ten digits is
  not a date); at every other argument its value is a placeholder that no example reads.
  \<open>String_trim\<close> strips the ASCII white space.
\<close>

definition isSpace :: "char \<Rightarrow> bool" where
  "isSpace c = (c \<in> set [CHR '' '', CHR 0x09, CHR 0x0A, CHR 0x0B, CHR 0x0C, CHR 0x0D])"

definition example_trim :: "string \<Rightarrow> string" where
  "example_trim s = rev (dropWhile isSpace (rev (dropWhile isSpace s)))"

definition example_Number :: "string \<Rightarrow> jsnum" where
  "example_Number s =
     (if s = [] then Num 0
      else if s = ''1700000000'' then Num 1700000000
      else if s = ''1700000000000'' then Num 1700000000000
      else if s = ''1700000000000.5'' then Num (3400000000001 / 2)
      else if s = ''1700000000.001'' then Num (3565158400002097 / 2097152)
      else if s = ''-2000000000'' then Num (- 2000000000)
      else NaN)"

definition example_Date_parse :: "string \<Rightarrow> int option" where
  "example_Date_parse s =
     (if s = ''2024-01-01'' then Some 1704067200000
      else if s = ''2024-02-01'' then Some 1706745600000
      else if s = ''2024-03-01'' then Some 1709251200000
      else if s = ''-2000000000'' then None
      else None)"

definition example_toISOString :: "int \<Rightarrow> string" where
  "example_toISOString t =
     (if t = 1700000000000 then ''2023-11-14T22:13:20.000Z''
      else if t = 1700000000001 then ''2023-11-14T22:13:20.001Z''
      else ''unused'')"

definition example_String :: "jsnum \<Rightarrow> string" where
  "example_String n =
     (case n of
        Num x \<Rightarrow> if x = 5 then ''5'' else ''unused''
      | Infinity \<Rightarrow> ''Infinity''
      | NegInfinity \<Rightarrow> ''-Infinity''
      | NaN \<Rightarrow> ''NaN'')"

definition example_runtime :: js_runtime where
  "example_runtime =
     \<lparr>Number_of_string = example_Number, String_trim = example_trim,
      Date_parse = example_Date_parse, Date_toISOString = example_toISOString,
      String_of_number = example_String\<rparr>"

text \<open>A row with the given timestamp and lifts, and no body weight.\<close>

definition mkRow :: "string \<Rightarrow> jsnum option \<Rightarrow> jsnum option \<Rightarrow> jsnum option \<Rightarrow> jsnum option \<Rightarrow> LogRow" where
  "mkRow t b s d w = \<lparr>timestamp = t, bp = b, sq = s, dl = d, bodyWeight = w\<rparr>"

section \<open>Specification-level definitions\<close>

text \<open>
  Forward fill of one column: the state is the last known good value, a present value
  replaces it, and the value emitted is the state after the row.
\<close>

fun forwardFill :: "real option \<Rightarrow> real option list \<Rightarrow> real option list" where
  "forwardFill lst [] = []"
| "forwardFill lst (x # xs) = nullish x lst # forwardFill (nullish x lst) xs"

text \<open>
  The value emitted at position \<open>i\<close> of a column, in the words of the specification:
  the row's own value when it is present, otherwise the most recent earlier value of the
  column, absent when no earlier row has one. Present means a finite number, as \<open>toNum\<close>
  decides it.
\<close>

definition lastKnownGood :: "real option list \<Rightarrow> real option" where
  "lastKnownGood col =
     (let seen = filter (\<lambda>x. x \<noteq> None) col in if seen = [] then None else last seen)"

definition emitted :: "jsnum option list \<Rightarrow> nat \<Rightarrow> real option" where
  "emitted col i =
     (case toNum (col ! i) of
        Some x \<Rightarrow> Some x
      | None \<Rightarrow> lastKnownGood (map toNum (take i col)))"

text \<open>The rows of the scenario of the specification.\<close>

definition scenarioRows :: "LogRow list" where
  "scenarioRows =
     [mkRow ''2024-01-01'' (Some (Num 80)) None None None,
      mkRow ''2024-02-01'' None (Some (Num 100)) None None,
      mkRow ''2024-03-01'' (Some (Num 85)) None (Some (Num 120)) None]"

text \<open>A body weight that is present, finite and strictly positive.\<close>

definition validBodyWeight :: "jsnum option \<Rightarrow> bool" where
  "validBodyWeight x = (case x of Some (Num w) \<Rightarrow> 0 < w | _ \<Rightarrow> False)"

text \<open>The value of a point under a data key, \<^verbatim>\<open>base[dataKey]\<close>.\<close>

definition baseField :: "NumericDataKey \<Rightarrow> ChartPoint \<Rightarrow> jsnum option" where
  "baseField dataKey p =
     (case dataKey of
        Total \<Rightarrow> c_total p
      | Bp \<Rightarrow> map_option Num (c_bp p)
      | Sq \<Rightarrow> map_option Num (c_sq p)
      | Dl \<Rightarrow> map_option Num (c_dl p)
      | BodyWeight \<Rightarrow> map_option Num (c_bodyWeight p))"

text \<open>The two rows of the summary example of the specification.\<close>

definition summaryRows :: "LogRow list" where
  "summaryRows =
     [mkRow [] (Some (Num 100)) (Some (Num 0)) (Some (Num 0)) None,
      mkRow [] (Some (Num 0)) (Some (Num 150)) (Some (Num 200)) None]"

text \<open>
  Rows for the examples on ordering and body weight: one without a timestamp, then two
  dated rows given out of order. The latest dated row has no body weight.
\<close>

definition mixedRows :: "LogRow list" where
  "mixedRows =
     [mkRow [] (Some (Num 60)) None None (Some (Num 90)),
      mkRow ''2024-02-01'' None (Some (Num 100)) None None,
      mkRow ''2024-01-01'' (Some (Num 80)) None None (Some (Num 70))]"

text \<open>
  The double \<open>2\<^sup>1\<^sup>0\<^sup>2\<^sup>3\<close>, and the doubles nearest to the decimals 64.35, 100.8, 204.4
  and 1.58.
\<close>

definition d2_1023 :: real where
  "d2_1023 = 2 ^ 1023"


definition d100_8 :: real where
  "d100_8 = 7093169413108531 / 70368744177664"


definition d1_58 :: real where
  "d1_58 = 889460926405673 / 562949953421312"

text \<open>
  Rows for the ratio examples: at the second point in time order a body weight is
  recorded while no squat has been seen yet; at the third the squat is 100.8 and the body
  weight 64.
\<close>

definition ratioRows :: "LogRow list" where
  "ratioRows =
     [mkRow ''2024-02-01'' None None None (Some (Num 70)),
      mkRow ''2024-01-01'' (Some (Num 80)) None None None,
      mkRow ''2024-03-01'' None (Some (Num d100_8)) None (Some (Num 64))]"


text \<open>One row whose three lifts are the double \<open>2\<^sup>1\<^sup>0\<^sup>2\<^sup>3\<close>, with the body weight 64.\<close>

definition hugeRows :: "LogRow list" where
  "hugeRows =
     [mkRow ''2024-01-01'' (Some (Num d2_1023)) (Some (Num d2_1023)) (Some (Num d2_1023))
        (Some (Num 64))]"

text \<open>
  Rows for the ratio summary: a bench press of 100.8 with the body weight 64, then a later
  row with a squat of 160 and no body weight.
\<close>

definition weighedRows :: "LogRow list" where
  "weighedRows =
     [mkRow ''2024-01-01'' (Some (Num d100_8)) None None (Some (Num 64)),
      mkRow ''2024-02-01'' None (Some (Num 160)) None None]"

text \<open>
  Cells for the decoder examples: an epoch number in seconds with a formatted string, a
  slash date given as a string, a cell whose value is the empty string, a plain number, a
  date cell with a value and a formatted string, a cell with a formatted string only, and
  an epoch number in seconds with a fraction (the double nearest to 1700000000.001).
\<close>

definition epochCell :: GvizCell where
  "epochCell = \<lparr>v = Some (VNum (Num 1700000000)), f = Some ''1.7E9''\<rparr>"

definition slashCell :: GvizCell where
  "slashCell = \<lparr>v = Some (VStr ''2024/06/01''), f = None\<rparr>"

definition emptyCell :: GvizCell where
  "emptyCell = \<lparr>v = Some (VStr []), f = Some ''x''\<rparr>"

definition weightCell :: GvizCell where
  "weightCell = \<lparr>v = Some (VNum (Num 5)), f = None\<rparr>"

definition formattedCell :: GvizCell where
  "formattedCell = \<lparr>v = Some (VStr ''Date(2024,5,1)''), f = Some ''2024/06/01''\<rparr>"

definition formulaCell :: GvizCell where
  "formulaCell = \<lparr>v = None, f = Some ''1700000000''\<rparr>"

definition fractionCell :: GvizCell where
  "fractionCell = \<lparr>v = Some (VNum (Num (3565158400002097 / 2097152))), f = None\<rparr>"

section \<open>Rounding to a double\<close>

lemma ilog2_bounds:
  "1 \<le> n \<Longrightarrow> 0 \<le> ilog2 n \<and> 2 ^ nat (ilog2 n) \<le> n \<and> n < 2 * 2 ^ nat (ilog2 n)"
proof (induction n rule: ilog2.induct)
  case (1 n)
  show ?case
  proof (cases "n < 2")
    case True
    then have "n = 1" using "1.prems" by simp
    then show ?thesis by (simp add: ilog2.simps)
  next
    case False
    then have h: "1 \<le> n div 2" by simp
    from "1.IH" [OF False h]
    have ih: "0 \<le> ilog2 (n div 2)" "2 ^ nat (ilog2 (n div 2)) \<le> n div 2"
      "n div 2 < 2 * 2 ^ nat (ilog2 (n div 2))" by simp_all
    have e: "ilog2 n = 1 + ilog2 (n div 2)" using False by (simp add: ilog2.simps)
    have p: "(2::int) ^ nat (1 + ilog2 (n div 2)) = 2 * 2 ^ nat (ilog2 (n div 2))"
      using ih(1) by (simp add: nat_add_distrib)
    have "2 * (n div 2) \<le> n" "n < 2 * (n div 2) + 2" by simp_all
    then show ?thesis using ih e p by simp
  qed
qed

lemma binexp_bounds:
  assumes "x \<noteq> 0"
  shows "2 powi (binexp x) \<le> \<bar>x\<bar> \<and> \<bar>x\<bar> < 2 powi (binexp x + 1)"
proof (cases "1 \<le> \<bar>x\<bar>")
  case True
  let ?n = "\<lfloor>\<bar>x\<bar>\<rfloor>"
  have n: "1 \<le> ?n" using True by simp
  from ilog2_bounds [OF n]
  have b: "0 \<le> ilog2 ?n" "2 ^ nat (ilog2 ?n) \<le> ?n" "?n < 2 * 2 ^ nat (ilog2 ?n)" by simp_all
  have e: "binexp x = ilog2 ?n" using True by (simp add: binexp_def)
  have "(2::real) powi (ilog2 ?n) = of_int (2 ^ nat (ilog2 ?n))"
    using b(1) by (simp add: power_int_nonneg_exp)
  also have "\<dots> \<le> of_int ?n" using b(2) by (simp only: of_int_le_iff)
  also have "\<dots> \<le> \<bar>x\<bar>" by simp
  finally have lo: "2 powi (binexp x) \<le> \<bar>x\<bar>" by (simp add: e)
  have "?n + 1 \<le> 2 * 2 ^ nat (ilog2 ?n)" using b(3) by simp
  then have "real_of_int (?n + 1) \<le> real_of_int (2 * 2 ^ nat (ilog2 ?n))"
    by (simp only: of_int_le_iff)
  then have B: "real_of_int ?n + 1 \<le> 2 * 2 ^ nat (ilog2 ?n)" by simp
  have A: "\<bar>x\<bar> < real_of_int ?n + 1" by linarith
  have C: "(2::real) powi (ilog2 ?n + 1) = 2 * 2 ^ nat (ilog2 ?n)"
    using b(1) by (simp add: power_int_nonneg_exp nat_add_distrib)
  have "\<bar>x\<bar> < 2 powi (binexp x + 1)" unfolding e C using A B by linarith
  then show ?thesis using lo by simp
next
  case False
  then have lt: "\<bar>x\<bar> < 1" and pos: "0 < \<bar>x\<bar>" using assms by simp_all
  let ?y = "1 / \<bar>x\<bar>"
  let ?m = "\<lceil>?y\<rceil> - 1"
  have y: "1 < ?y" using lt pos by simp
  then have m: "1 \<le> ?m" by (simp add: less_ceiling_iff)
  from ilog2_bounds [OF m]
  have b: "0 \<le> ilog2 ?m" "2 ^ nat (ilog2 ?m) \<le> ?m" "?m < 2 * 2 ^ nat (ilog2 ?m)" by simp_all
  let ?k = "1 + ilog2 ?m"
  have e: "binexp x = - ?k" using False by (simp add: binexp_def)
  have k: "(2::real) powi ?k = real_of_int (2 * 2 ^ nat (ilog2 ?m))"
    using b(1) by (simp add: power_int_nonneg_exp nat_add_distrib)
  have "\<lceil>?y\<rceil> \<le> 2 * 2 ^ nat (ilog2 ?m)" using b(3) by simp
  then have "real_of_int \<lceil>?y\<rceil> \<le> real_of_int (2 * 2 ^ nat (ilog2 ?m))"
    by (simp only: of_int_le_iff)
  moreover have "?y \<le> real_of_int \<lceil>?y\<rceil>" by simp
  ultimately have yk: "?y \<le> 2 powi ?k" using k by linarith
  define K :: real where "K = 2 powi ?k"
  define K' :: real where "K' = 2 powi (?k - 1)"
  have Kpos: "0 < K" "0 < K'" by (simp_all add: K_def K'_def)
  have inv: "(2::real) powi (- ?k) = 1 / K" unfolding K_def by (rule power_int_minus_divide)
  have "1 / \<bar>x\<bar> \<le> K" using yk by (simp only: K_def)
  then have "1 \<le> K * \<bar>x\<bar>" using pos by (simp add: field_simps)
  then have "1 / K \<le> \<bar>x\<bar>" using Kpos(1) by (simp add: field_simps)
  then have lo: "2 powi (- ?k) \<le> \<bar>x\<bar>" by (simp only: inv)
  have k1: "(2::real) powi (?k - 1) = real_of_int (2 ^ nat (ilog2 ?m))"
    using b(1) by (simp add: power_int_nonneg_exp)
  have "real_of_int (2 ^ nat (ilog2 ?m)) \<le> real_of_int (\<lceil>?y\<rceil> - 1)"
    using b(2) by (simp only: of_int_le_iff)
  moreover have "real_of_int (\<lceil>?y\<rceil> - 1) < ?y" by linarith
  ultimately have "K' < 1 / \<bar>x\<bar>" using k1 unfolding K'_def by linarith
  then have "K' * \<bar>x\<bar> < 1" using pos by (simp add: field_simps)
  then have "\<bar>x\<bar> < 1 / K'" using Kpos(2) by (simp add: field_simps)
  moreover have "(2::real) powi (- ?k + 1) = 1 / K'"
    using power_int_minus_divide [of "2::real" "?k - 1"] by (simp add: K'_def)
  ultimately have "\<bar>x\<bar> < 2 powi (- ?k + 1)" by simp
  then show ?thesis using lo e by simp
qed

lemma pow2_less_imp: "(2::real) powi a < 2 powi b \<Longrightarrow> a < b"
  using power_int_increasing [of b a "2::real"] by (cases "a < b") auto

lemma pow2_le_imp: "(2::real) powi a \<le> 2 powi b \<Longrightarrow> a \<le> b"
  using power_int_strict_increasing [of b a "2::real"] by (cases "a \<le> b") auto

lemma binexp_eqI:
  assumes "2 powi e \<le> \<bar>x\<bar>" "\<bar>x\<bar> < 2 powi (e + 1)"
  shows "binexp x = e"
proof -
  have "0 < (2::real) powi e" by simp
  then have "0 < \<bar>x\<bar>" using assms(1) by linarith
  then have x: "x \<noteq> 0" by auto
  from binexp_bounds [OF x]
  have b: "2 powi (binexp x) \<le> \<bar>x\<bar>" "\<bar>x\<bar> < 2 powi (binexp x + 1)" by simp_all
  have "(2::real) powi e < 2 powi (binexp x + 1)" using assms(1) b(2) by linarith
  then have "e < binexp x + 1" by (rule pow2_less_imp)
  moreover have "(2::real) powi (binexp x) < 2 powi (e + 1)" using assms(2) b(1) by linarith
  then have "binexp x < e + 1" by (rule pow2_less_imp)
  ultimately show ?thesis by simp
qed

lemma roundTiesToEven_close: "\<bar>of_int (roundTiesToEven t) - t\<bar> \<le> 1 / 2"
proof -
  have "of_int \<lfloor>t\<rfloor> \<le> t" "t < of_int \<lfloor>t\<rfloor> + 1" by linarith+
  then show ?thesis
    by (auto simp: roundTiesToEven_def Let_def)
qed

lemma roundTiesToEven_of_int [simp]: "roundTiesToEven (of_int k) = k"
  by (simp add: roundTiesToEven_def)

lemma fl_eval:
  assumes "2 powi e \<le> \<bar>x\<bar>" "\<bar>x\<bar> < 2 powi (e + 1)" "- 1022 \<le> e"
  shows "fl x =
     (if 2 ^ 1024 \<le> \<bar>real_of_int (roundTiesToEven (x / 2 powi (e - 52))) * 2 powi (e - 52)\<bar>
      then (if 0 < x then Infinity else NegInfinity)
      else Num (of_int (roundTiesToEven (x / 2 powi (e - 52))) * 2 powi (e - 52)))"
proof -
  have "0 < (2::real) powi e" by simp
  then have "0 < \<bar>x\<bar>" using assms(1) by linarith
  then have x: "x \<noteq> 0" by auto
  have "max (binexp x) (- 1022) = e" using binexp_eqI [OF assms(1,2)] assms(3) by simp
  then show ?thesis using x by (simp add: fl_def Let_def)
qed

lemma fl_of_int:
  assumes "\<bar>k\<bar> \<le> 2 ^ 53"
  shows "fl (of_int k) = Num (of_int k)"
proof (cases "k = 0")
  case True
  then show ?thesis by (simp add: fl_def)
next
  case False
  let ?x = "real_of_int k"
  let ?e = "max (binexp ?x) (- 1022)"
  let ?q = "(2::real) powi (?e - 52)"
  have x: "?x \<noteq> 0" using False by simp
  have "2 powi (binexp ?x) \<le> \<bar>?x\<bar>" using binexp_bounds [OF x] by simp
  also have "\<bar>?x\<bar> \<le> 2 powi 53"
  proof -
    have "real_of_int \<bar>k\<bar> \<le> real_of_int (2 ^ 53)" using assms by (simp only: of_int_le_iff)
    then show ?thesis by simp
  qed
  finally have e53: "binexp ?x \<le> 53" by (rule pow2_le_imp)
  have "\<exists>m::int. ?x / ?q = of_int m"
  proof (cases "?e \<le> 52")
    case True
    then have "?x / ?q = ?x * 2 ^ nat (52 - ?e)"
      using power_int_minus_divide [of "2::real" "52 - ?e"]
      by (simp add: power_int_nonneg_exp)
    also have "\<dots> = of_int (k * 2 ^ nat (52 - ?e))" by simp
    finally show ?thesis by blast
  next
    case False
    then have e: "binexp ?x = 53" "?e = 53" using e53 by simp_all
    then have "2 powi 53 \<le> \<bar>?x\<bar>" using binexp_bounds [OF x] by simp
    then have "real_of_int (2 ^ 53) \<le> real_of_int \<bar>k\<bar>" by simp
    then have "2 ^ 53 \<le> \<bar>k\<bar>" by (simp only: of_int_le_iff)
    then have "\<bar>k\<bar> = 2 ^ 53" using assms by simp
    then have "k = 2 ^ 53 \<or> k = - (2 ^ 53)" by linarith
    then have "?x / ?q = of_int (k div 2)"
      using e by auto
    then show ?thesis by blast
  qed
  then obtain m :: int where m: "?x / ?q = of_int m" by blast
  have q: "0 < ?q" by simp
  have "real_of_int (roundTiesToEven (?x / ?q)) = ?x / ?q" by (simp add: m)
  then have y: "of_int (roundTiesToEven (?x / ?q)) * ?q = ?x"
    using q by simp
  have "\<bar>?x\<bar> < 2 ^ 1024"
  proof -
    have "real_of_int \<bar>k\<bar> \<le> real_of_int (2 ^ 53)" using assms by (simp only: of_int_le_iff)
    then show ?thesis by simp
  qed
  then show ?thesis using x by (simp add: fl_def Let_def y)
qed

lemma fl_close:
  assumes "\<bar>x\<bar> \<le> 2 ^ k" "k \<le> 1000"
  shows "\<exists>y. fl x = Num y \<and> \<bar>y - x\<bar> \<le> 2 ^ k / 2 ^ 53"
proof (cases "x = 0")
  case True
  then show ?thesis by (simp add: fl_def)
next
  case False
  let ?e = "max (binexp x) (- 1022)"
  let ?q = "(2::real) powi (?e - 52)"
  let ?y = "of_int (roundTiesToEven (x / ?q)) * ?q"
  have "2 powi (binexp x) \<le> \<bar>x\<bar>" using binexp_bounds [OF False] by simp
  also have "\<bar>x\<bar> \<le> 2 powi (int k)" using assms(1) by simp
  finally have "binexp x \<le> int k" by (rule pow2_le_imp)
  then have e: "?e - 52 \<le> int k - 52" by simp
  have q: "0 < ?q" by simp
  have qk: "?q \<le> 2 ^ k / 2 ^ 52"
  proof -
    have "?q \<le> 2 powi (int k - 52)" using e by (intro power_int_increasing) simp_all
    also have "\<dots> = 2 ^ k / 2 ^ 52" by (simp add: power_int_diff)
    finally show ?thesis .
  qed
  have "\<bar>?y - x\<bar> = \<bar>of_int (roundTiesToEven (x / ?q)) - x / ?q\<bar> * ?q"
  proof -
    have "?y - x = (of_int (roundTiesToEven (x / ?q)) - x / ?q) * ?q"
      using q by (simp add: field_simps)
    then show ?thesis using q by (simp add: abs_mult)
  qed
  also have "\<dots> \<le> 1 / 2 * ?q"
    using roundTiesToEven_close [of "x / ?q"] q by (intro mult_right_mono) simp_all
  also have "\<dots> \<le> 2 ^ k / 2 ^ 53" using qk by simp
  finally have close: "\<bar>?y - x\<bar> \<le> 2 ^ k / 2 ^ 53" .
  have "\<bar>?y\<bar> \<le> \<bar>x\<bar> + \<bar>?y - x\<bar>" by linarith
  also have "\<dots> \<le> 2 ^ k + 2 ^ k / 2 ^ 53" using assms(1) close by linarith
  also have "\<dots> \<le> 2 * 2 ^ k" by (simp add: field_simps)
  also have "\<dots> = (2::real) ^ Suc k" by simp
  also have "\<dots> < 2 ^ 1024" using assms(2) by (intro power_strict_increasing) simp_all
  finally have "\<not> 2 ^ 1024 \<le> \<bar>?y\<bar>" by simp
  then have "fl x = Num ?y" using False by (simp add: fl_def Let_def)
  then show ?thesis using close by blast
qed

text \<open>Whole numbers up to \<open>2\<^sup>5\<^sup>3\<close> are doubles: an operation whose exact result is one returns it.\<close>

lemma fl_numeral [simp]:
  "(numeral n :: real) \<le> 9007199254740992 \<Longrightarrow> fl (numeral n) = Num (numeral n)"
proof -
  assume a: "(numeral n :: real) \<le> 9007199254740992"
  have "real_of_int (numeral n) \<le> real_of_int 9007199254740992" using a by simp
  then have "(numeral n :: int) \<le> 9007199254740992" by (simp only: of_int_le_iff)
  then have "\<bar>numeral n :: int\<bar> \<le> 2 ^ 53" by simp
  from fl_of_int [OF this] show ?thesis by simp
qed

lemma fl_zero [simp]: "fl 0 = Num 0"
  by (simp add: fl_def)

lemma fl_one [simp]: "fl 1 = Num 1"
  using fl_of_int [of 1] by simp

section \<open>Error bounds of the rounded sums and quotients\<close>

lemma Math_round_close: "\<bar>real_of_int \<lfloor>p + 1 / 2\<rfloor> - p\<bar> \<le> 1 / 2"
proof -
  have "of_int \<lfloor>p + 1 / 2\<rfloor> \<le> p + 1 / 2" by (rule of_int_floor_le)
  moreover have "p + 1 / 2 < of_int \<lfloor>p + 1 / 2\<rfloor> + 1" by (rule real_of_int_floor_add_one_gt)
  ultimately show ?thesis by linarith
qed

text \<open>Instances of \<open>fl_close\<close> with the powers of two written out.\<close>

lemma fl_close_20:
  "\<bar>x\<bar> \<le> 1048576 \<Longrightarrow> \<exists>y. fl x = Num y \<and> \<bar>y - x\<bar> \<le> 1 / 8589934592"
  using fl_close [of x 20] by simp



lemma fl_close_23:
  "\<bar>x\<bar> \<le> 8388608 \<Longrightarrow> \<exists>y. fl x = Num y \<and> \<bar>y - x\<bar> \<le> 1 / 1073741824"
  using fl_close [of x 23] by simp

lemma fl_close_29:
  "\<bar>x\<bar> \<le> 536870912 \<Longrightarrow> \<exists>y. fl x = Num y \<and> \<bar>y - x\<bar> \<le> 1 / 16777216"
  using fl_close [of x 29] by simp

lemma fl_close_50:
  "\<bar>x\<bar> \<le> 1125899906842624 \<Longrightarrow> \<exists>y. fl x = Num y \<and> \<bar>y - x\<bar> \<le> 1 / 8"
  using fl_close [of x 50] by simp


lemma round_hundredths_close:
  assumes "\<bar>s\<bar> \<le> 4000000"
  shows "\<exists>t k. js_div (Math_round (js_mul (Num s) (Num 100))) (Num 100) = Num t \<and>
           fl (of_int k / 100) = Num t \<and> \<bar>t - s\<bar> \<le> 1 / 200 + 1 / 134217728"
proof -
  have "\<bar>s * 100\<bar> \<le> 536870912" using assms by linarith
  from fl_close_29 [OF this] obtain p where p: "fl (s * 100) = Num p" "\<bar>p - s * 100\<bar> \<le> 1 / 16777216"
    by auto
  define k where "k = \<lfloor>p + 1 / 2\<rfloor>"
  have kp: "\<bar>real_of_int k - p\<bar> \<le> 1 / 2" unfolding k_def by (rule Math_round_close)
  have "\<bar>real_of_int k / 100\<bar> \<le> 8388608" using kp p(2) assms by linarith
  from fl_close_23 [OF this] obtain t where t: "fl (real_of_int k / 100) = Num t"
    "\<bar>t - real_of_int k / 100\<bar> \<le> 1 / 1073741824" by auto
  have "js_div (Math_round (js_mul (Num s) (Num 100))) (Num 100) = Num t"
    by (simp add: p(1) t(1) k_def [symmetric])
  moreover have "\<bar>t - s\<bar> \<le> 1 / 200 + 1 / 134217728" using kp p(2) t(2) by linarith
  ultimately show ?thesis using t(1) by blast
qed



lemma ratio_close:
  assumes "w \<noteq> 0" "\<bar>x / w\<bar> \<le> 1000000"
  shows "\<exists>t k. js_div (Math_round (js_mul (js_div (Num x) (Num w)) (Num 100))) (Num 100) = Num t \<and>
           fl (of_int k / 100) = Num t \<and> \<bar>t - x / w\<bar> \<le> 1 / 200 + 1 / 67108864"
proof -
  define r where "r = x / w"
  have r: "\<bar>r\<bar> \<le> 1000000" using assms(2) by (simp only: r_def)
  then have "\<bar>r\<bar> \<le> 1048576" by linarith
  from fl_close_20 [OF this] obtain d where d: "fl r = Num d" "\<bar>d - r\<bar> \<le> 1 / 8589934592"
    by auto
  have q: "js_div (Num x) (Num w) = Num d" using assms(1) d(1) by (simp add: r_def)
  have "\<bar>d\<bar> \<le> 4000000" using d(2) r by linarith
  from round_hundredths_close [OF this] obtain t k where
    t: "js_div (Math_round (js_mul (Num d) (Num 100))) (Num 100) = Num t"
       "fl (of_int k / 100) = Num t" "\<bar>t - d\<bar> \<le> 1 / 200 + 1 / 134217728" by blast
  have "\<bar>t - r\<bar> \<le> 1 / 200 + 1 / 67108864" using t(3) d(2) by linarith
  then show ?thesis using t(1,2) unfolding q r_def by blast
qed


section \<open>Evaluation of the examples\<close>

lemmas example_defs =
  example_runtime_def example_trim_def isSpace_def example_Number_def example_Date_parse_def
  example_toISOString_def example_String_def

lemmas eval_defs =
  chartData_def sortAndFillBpSqDl_def timeKey_def parseTimestamp_def parseDateString_def
  replaceSlashes_def isEpochLike_def epochMillis_def newDate_def mkRow_def chartPoint_def toNum_def useRatio_def
  RATIO_KEYS_def Let_def

section \<open>Forward fill\<close>

lemma nullish_simps [simp]: "nullish None b = b" "nullish (Some a) b = Some a"
  by (simp_all add: nullish_def)

lemma fillRows_Cons:
  "fillRows (lb, ls, ld) (row # rest) =
     row\<lparr>bp := map_option Num (nullish (toNum (bp row)) lb),
         sq := map_option Num (nullish (toNum (sq row)) ls),
         dl := map_option Num (nullish (toNum (dl row)) ld)\<rparr>
     # fillRows (nullish (toNum (bp row)) lb, nullish (toNum (sq row)) ls,
                 nullish (toNum (dl row)) ld) rest"
  by (cases "toNum (bp row)"; cases "toNum (sq row)"; cases "toNum (dl row)")
     (simp_all add: Let_def)

lemma length_fillRows [simp]: "length (fillRows st xs) = length xs"
  by (induction st xs rule: fillRows.induct) (simp_all add: Let_def)

lemma fillRows_bp: "map bp (fillRows (lb, ls, ld) xs) = map (map_option Num) (forwardFill lb (map (toNum \<circ> bp) xs))"
  by (induction xs arbitrary: lb ls ld) (simp_all add: fillRows_Cons del: fillRows.simps(2))

lemma fillRows_sq: "map sq (fillRows (lb, ls, ld) xs) = map (map_option Num) (forwardFill ls (map (toNum \<circ> sq) xs))"
  by (induction xs arbitrary: lb ls ld) (simp_all add: fillRows_Cons del: fillRows.simps(2))

lemma fillRows_dl: "map dl (fillRows (lb, ls, ld) xs) = map (map_option Num) (forwardFill ld (map (toNum \<circ> dl) xs))"
  by (induction xs arbitrary: lb ls ld) (simp_all add: fillRows_Cons del: fillRows.simps(2))

lemma fillRows_timestamp: "map timestamp (fillRows st xs) = map timestamp xs"
  by (induction st xs rule: fillRows.induct) (simp_all add: Let_def)

lemma fillRows_bodyWeight: "map bodyWeight (fillRows st xs) = map bodyWeight xs"
  by (induction st xs rule: fillRows.induct) (simp_all add: Let_def)

lemma length_forwardFill [simp]: "length (forwardFill l xs) = length xs"
  by (induction xs arbitrary: l) simp_all

lemma forwardFill_nth:
  "i < length xs \<Longrightarrow>
   forwardFill l xs ! i =
     (case xs ! i of
        Some x \<Rightarrow> Some x
      | None \<Rightarrow>
          if filter (\<lambda>x. x \<noteq> None) (take i xs) = [] then l
          else last (filter (\<lambda>x. x \<noteq> None) (take i xs)))"
proof (induction xs arbitrary: i l)
  case Nil
  then show ?case by simp
next
  case (Cons x xs)
  show ?case
  proof (cases i)
    case 0
    then show ?thesis by (cases x) simp_all
  next
    case (Suc n)
    then have n: "n < length xs" using Cons.prems by simp
    show ?thesis
      using Cons.IH [OF n, of "nullish x l"] Suc
      by (cases x) (auto split: option.splits)
  qed
qed

lemma forwardFill_emitted:
  "i < length col \<Longrightarrow> forwardFill None (map toNum col) ! i = emitted col i"
  by (simp add: forwardFill_nth emitted_def lastKnownGood_def take_map split: option.splits)

lemma sortAndFill_column:
  assumes "i < length rows"
  shows "bp (sortAndFillBpSqDl rt rows ! i) = map_option Num (emitted (map bp (sort_key (timeKey rt) rows)) i)"
    and "sq (sortAndFillBpSqDl rt rows ! i) = map_option Num (emitted (map sq (sort_key (timeKey rt) rows)) i)"
    and "dl (sortAndFillBpSqDl rt rows ! i) = map_option Num (emitted (map dl (sort_key (timeKey rt) rows)) i)"
proof -
  let ?s = "sort_key (timeKey rt) rows"
  let ?out = "sortAndFillBpSqDl rt rows"
  have len: "i < length ?s" "i < length ?out"
    using assms by (simp_all add: sortAndFillBpSqDl_def)
  have "bp (?out ! i) = map bp ?out ! i" using len by simp
  also have "\<dots> = map (map_option Num) (forwardFill None (map toNum (map bp ?s))) ! i"
    by (simp add: sortAndFillBpSqDl_def fillRows_bp)
  also have "\<dots> = map_option Num (emitted (map bp ?s) i)"
    using len forwardFill_emitted [of i "map bp ?s"] by simp
  finally show "bp (?out ! i) = map_option Num (emitted (map bp ?s) i)" .
  have "sq (?out ! i) = map sq ?out ! i" using len by simp
  also have "\<dots> = map (map_option Num) (forwardFill None (map toNum (map sq ?s))) ! i"
    by (simp add: sortAndFillBpSqDl_def fillRows_sq)
  also have "\<dots> = map_option Num (emitted (map sq ?s) i)"
    using len forwardFill_emitted [of i "map sq ?s"] by simp
  finally show "sq (?out ! i) = map_option Num (emitted (map sq ?s) i)" .
  have "dl (?out ! i) = map dl ?out ! i" using len by simp
  also have "\<dots> = map (map_option Num) (forwardFill None (map toNum (map dl ?s))) ! i"
    by (simp add: sortAndFillBpSqDl_def fillRows_dl)
  also have "\<dots> = map_option Num (emitted (map dl ?s) i)"
    using len forwardFill_emitted [of i "map dl ?s"] by simp
  finally show "dl (?out ! i) = map_option Num (emitted (map dl ?s) i)" .
qed

lemma sortAndFill_kept:
  assumes "i < length rows"
  shows "timestamp (sortAndFillBpSqDl rt rows ! i) = timestamp (sort_key (timeKey rt) rows ! i)"
    and "bodyWeight (sortAndFillBpSqDl rt rows ! i) = bodyWeight (sort_key (timeKey rt) rows ! i)"
proof -
  let ?s = "sort_key (timeKey rt) rows"
  let ?out = "sortAndFillBpSqDl rt rows"
  have len: "i < length ?s" "i < length ?out"
    using assms by (simp_all add: sortAndFillBpSqDl_def)
  have "timestamp (?out ! i) = map timestamp ?out ! i" using len by simp
  also have "\<dots> = map timestamp ?s ! i"
    by (simp add: sortAndFillBpSqDl_def fillRows_timestamp)
  finally show "timestamp (?out ! i) = timestamp (?s ! i)" using len by simp
  have "bodyWeight (?out ! i) = map bodyWeight ?out ! i" using len by simp
  also have "\<dots> = map bodyWeight ?s ! i"
    by (simp add: sortAndFillBpSqDl_def fillRows_bodyWeight)
  finally show "bodyWeight (?out ! i) = bodyWeight (?s ! i)" using len by simp
qed

lemma scenario_points:
  "chartData example_runtime False Total scenarioRows =
     [\<lparr>c_timestamp = ''2024-01-01'', c_bp = Some 80, c_sq = None, c_dl = None,
       c_total = None, c_bodyWeight = None, c_ratio = Unset\<rparr>,
      \<lparr>c_timestamp = ''2024-02-01'', c_bp = Some 80, c_sq = Some 100, c_dl = None,
       c_total = None, c_bodyWeight = None, c_ratio = Unset\<rparr>,
      \<lparr>c_timestamp = ''2024-03-01'', c_bp = Some 85, c_sq = Some 100, c_dl = Some 120,
       c_total = Some (Num 305), c_bodyWeight = None, c_ratio = Unset\<rparr>]"
  by (simp add: scenarioRows_def eval_defs example_defs)

text \<open>
  Claim C1, the scenario as the specification gives it: the total column would be
  \<open>[null, null, 325]\<close>. The third point has bp 85, sq 100 (carried) and dl 120, and
  the program emits their sum 305.
\<close>

theorem scenario_total_counterexample:
  "map c_total (chartData example_runtime False Total scenarioRows) \<noteq> [None, None, Some (Num 325)]"
  by (simp add: scenario_points)

text \<open>
  Claim C1, amended. For every list of rows, \<open>sortAndFillBpSqDl\<close> keeps the length, the
  timestamp and the body weight of the time-sorted sequence, and the value it emits for
  each lift at position \<open>i\<close> is \<open>emitted\<close> at \<open>i\<close> of that lift's own column of the
  sorted sequence: the row's own value when present, otherwise the most recent earlier
  value of the same lift, absent when there is none. The column of one lift is the only
  input of its emitted values, so the three fills are independent. In the scenario the
  columns are bp \<open>[80, 80, 85]\<close>, sq \<open>[null, 100, 100]\<close>, dl \<open>[null, null, 120]\<close> and
  total \<open>[null, null, 305]\<close>.
\<close>

theorem forward_fill_per_lift:
  "(i < length rows \<longrightarrow>
      length (sortAndFillBpSqDl rt rows) = length rows \<and>
      timestamp (sortAndFillBpSqDl rt rows ! i) = timestamp (sort_key (timeKey rt) rows ! i) \<and>
      bodyWeight (sortAndFillBpSqDl rt rows ! i) = bodyWeight (sort_key (timeKey rt) rows ! i) \<and>
      bp (sortAndFillBpSqDl rt rows ! i) =
        map_option Num (emitted (map bp (sort_key (timeKey rt) rows)) i) \<and>
      sq (sortAndFillBpSqDl rt rows ! i) =
        map_option Num (emitted (map sq (sort_key (timeKey rt) rows)) i) \<and>
      dl (sortAndFillBpSqDl rt rows ! i) =
        map_option Num (emitted (map dl (sort_key (timeKey rt) rows)) i)) \<and>
   map c_bp (chartData example_runtime False Total scenarioRows) = [Some 80, Some 80, Some 85] \<and>
   map c_sq (chartData example_runtime False Total scenarioRows) = [None, Some 100, Some 100] \<and>
   map c_dl (chartData example_runtime False Total scenarioRows) = [None, None, Some 120] \<and>
   map c_total (chartData example_runtime False Total scenarioRows) = [None, None, Some (Num 305)]"
  using sortAndFill_column [of i rows rt] sortAndFill_kept [of i rows rt]
  by (simp add: scenario_points sortAndFillBpSqDl_def)

theorem forward_fill_per_lift_witness:
  "(1::nat) < length scenarioRows \<and>
   bp (sortAndFillBpSqDl example_runtime scenarioRows ! 1) = Some (Num 80) \<and>
   sq (sortAndFillBpSqDl example_runtime scenarioRows ! 1) = Some (Num 100) \<and>
   dl (sortAndFillBpSqDl example_runtime scenarioRows ! 1) = None \<and>
   emitted (map bp (sort_key (timeKey example_runtime) scenarioRows)) 1 = Some 80"
  using forward_fill_per_lift [of 1 scenarioRows example_runtime]
  by (simp add: scenarioRows_def emitted_def lastKnownGood_def timeKey_def parseTimestamp_def
      parseDateString_def replaceSlashes_def isEpochLike_def epochMillis_def mkRow_def toNum_def
      example_defs)

section \<open>Sorting and idempotence\<close>


lemma toNum_Num [simp]: "toNum (map_option Num x) = x"
  by (cases x) (simp_all add: toNum_def)

lemma nullish_absorb: "(x = None \<longrightarrow> m = None) \<Longrightarrow> nullish x m = x"
  by (cases x) simp_all

lemma nullish_None_iff: "nullish x l = None \<longleftrightarrow> x = None \<and> l = None"
  by (cases x) simp_all

lemma fillRows_idem:
  "(lb = None \<longrightarrow> mb = None) \<Longrightarrow> (ls = None \<longrightarrow> ms = None) \<Longrightarrow> (ld = None \<longrightarrow> md = None) \<Longrightarrow>
   fillRows (mb, ms, md) (fillRows (lb, ls, ld) xs) = fillRows (lb, ls, ld) xs"
proof (induction xs arbitrary: lb ls ld mb ms md)
  case Nil
  then show ?case by simp
next
  case (Cons row rest)
  let ?b = "nullish (toNum (bp row)) lb"
  let ?s = "nullish (toNum (sq row)) ls"
  let ?d = "nullish (toNum (dl row)) ld"
  have b: "nullish ?b mb = ?b" using Cons.prems(1) by (intro nullish_absorb) (simp add: nullish_None_iff)
  have s: "nullish ?s ms = ?s" using Cons.prems(2) by (intro nullish_absorb) (simp add: nullish_None_iff)
  have d: "nullish ?d md = ?d" using Cons.prems(3) by (intro nullish_absorb) (simp add: nullish_None_iff)
  have rest: "fillRows (?b, ?s, ?d) (fillRows (?b, ?s, ?d) rest) = fillRows (?b, ?s, ?d) rest"
    by (rule Cons.IH) simp_all
  show ?case
    by (simp add: fillRows_Cons b s d rest del: fillRows.simps(2))
qed

lemma timeKey_fillRows: "map (timeKey rt) (fillRows st xs) = map (timeKey rt) xs"
proof -
  have "map (timeKey rt) ys = map (\<lambda>t. case parseTimestamp rt t of Some t \<Rightarrow> At t | None \<Rightarrow> Never) (map timestamp ys)" for ys
    by (simp add: timeKey_def)
  then show ?thesis by (simp only: fillRows_timestamp)
qed

lemma sorted_sortAndFill: "sorted (map (timeKey rt) (sortAndFillBpSqDl rt rows))"
  by (simp add: sortAndFillBpSqDl_def timeKey_fillRows)

lemma unparseable_after_parseable:
  assumes "i < length rows" "j < length rows"
    and "parseTimestamp rt (timestamp (sortAndFillBpSqDl rt rows ! i)) = None"
    and "parseTimestamp rt (timestamp (sortAndFillBpSqDl rt rows ! j)) \<noteq> None"
  shows "j < i"
proof (rule ccontr)
  let ?out = "sortAndFillBpSqDl rt rows"
  assume "\<not> j < i"
  then have "i \<le> j" by simp
  moreover have "j < length (map (timeKey rt) ?out)" using assms(2) by (simp add: sortAndFillBpSqDl_def)
  ultimately have "map (timeKey rt) ?out ! i \<le> map (timeKey rt) ?out ! j"
    using sorted_sortAndFill [of rt rows] by (simp add: sorted_iff_nth_mono)
  then have "timeKey rt (?out ! i) \<le> timeKey rt (?out ! j)"
    using assms(1,2) by (simp add: sortAndFillBpSqDl_def)
  then show False using assms(3,4) by (auto simp: timeKey_def)
qed

lemma set_withDate:
  "set (withDate rt rows) = {(r, d). r \<in> set rows \<and> parseTimestamp rt (timestamp r) = Some d}"
  by (induction rows) (auto simp: withDate_def split: option.splits)

lemma last_sorted_max:
  "sorted (map k ys) \<Longrightarrow> y \<in> set ys \<Longrightarrow> k y \<le> k (last ys)"
proof (induction ys)
  case Nil then show ?case by simp
next
  case (Cons a ys)
  then show ?case by (cases ys) auto
qed

lemma getLatestRow_None:
  "getLatestRow rt rows = None \<longleftrightarrow> (\<forall>r\<in>set rows. parseTimestamp rt (timestamp r) = None)"
proof -
  have "withDate rt rows = [] \<longleftrightarrow> (\<forall>r\<in>set rows. parseTimestamp rt (timestamp r) = None)"
    using set_withDate [of rt rows] by (auto simp flip: set_empty)
  then show ?thesis by (auto simp: getLatestRow_def Let_def)
qed

lemma getLatestRow_Some:
  assumes "getLatestRow rt rows = Some r"
  shows "r \<in> set rows \<and> (\<exists>d. parseTimestamp rt (timestamp r) = Some d \<and>
           (\<forall>r'\<in>set rows. \<forall>d'. parseTimestamp rt (timestamp r') = Some d' \<longrightarrow> d' \<le> d))"
proof -
  let ?wd = "withDate rt rows"
  let ?s = "sort_key snd ?wd"
  from assms have ne: "?wd \<noteq> []" and r: "r = fst (last ?s)"
    by (auto simp: getLatestRow_def Let_def split: if_splits)
  have sne: "?s \<noteq> []" using ne by (metis length_sort length_0_conv)
  then have "last ?s \<in> set ?wd" using last_in_set [OF sne] by simp
  then have mem: "r \<in> set rows" and p: "parseTimestamp rt (timestamp r) = Some (snd (last ?s))"
    using r by (auto simp: set_withDate)
  have "d' \<le> snd (last ?s)" if "r' \<in> set rows" "parseTimestamp rt (timestamp r') = Some d'" for r' d'
  proof -
    have "(r', d') \<in> set ?s" using that by (simp add: set_withDate)
    then have "snd (r', d') \<le> snd (last ?s)"
      by (intro last_sorted_max) simp_all
    then show ?thesis by simp
  qed
  then show ?thesis using mem p by blast
qed

section \<open>The summary\<close>

lemma firstBodyWeight_Cons:
  "firstBodyWeight ((row, date) # rest) =
     (if validBodyWeight (bodyWeight row) then toNum (bodyWeight row) else firstBodyWeight rest)"
  by (auto simp: validBodyWeight_def toNum_def split: option.splits jsnum.splits)

lemma validBodyWeight_toNum:
  "validBodyWeight x \<Longrightarrow> toNum x = Some w \<Longrightarrow> x = Some (Num w) \<and> 0 < w"
  by (auto simp: validBodyWeight_def toNum_def split: option.splits jsnum.splits)

lemma firstBodyWeight_None:
  "firstBodyWeight xs = None \<longleftrightarrow> (\<forall>x\<in>set xs. \<not> validBodyWeight (bodyWeight (fst x)))"
proof (induction xs)
  case Nil
  then show ?case by simp
next
  case (Cons a xs)
  obtain row date where a: "a = (row, date)" by (cases a)
  show ?case
    using Cons.IH
    by (auto simp: a firstBodyWeight_Cons validBodyWeight_def toNum_def
        simp del: firstBodyWeight.simps(2) split: option.splits jsnum.splits)
qed

lemma firstBodyWeight_Some:
  "firstBodyWeight xs = Some w \<Longrightarrow>
   \<exists>ys r d zs. xs = ys @ (r, d) # zs \<and> bodyWeight r = Some (Num w) \<and> 0 < w \<and>
     (\<forall>y\<in>set ys. \<not> validBodyWeight (bodyWeight (fst y)))"
proof (induction xs)
  case Nil
  then show ?case by simp
next
  case (Cons a xs)
  obtain row date where a: "a = (row, date)" by (cases a)
  show ?case
  proof (cases "validBodyWeight (bodyWeight row)")
    case True
    then have "toNum (bodyWeight row) = Some w"
      using Cons.prems by (simp add: a firstBodyWeight_Cons del: firstBodyWeight.simps(2))
    then have "bodyWeight row = Some (Num w) \<and> 0 < w"
      using True by (rule validBodyWeight_toNum [rotated])
    then have "a # xs = [] @ (row, date) # xs \<and> bodyWeight row = Some (Num w) \<and> 0 < w \<and>
       (\<forall>y\<in>set []. \<not> validBodyWeight (bodyWeight (fst y)))"
      by (simp add: a)
    then show ?thesis by blast
  next
    case False
    then have "firstBodyWeight xs = Some w"
      using Cons.prems by (simp add: a firstBodyWeight_Cons del: firstBodyWeight.simps(2))
    then obtain ys r d zs where h: "xs = ys @ (r, d) # zs" "bodyWeight r = Some (Num w)" "0 < w"
       "\<forall>y\<in>set ys. \<not> validBodyWeight (bodyWeight (fst y))"
      using Cons.IH by blast
    have "a # xs = (a # ys) @ (r, d) # zs \<and> bodyWeight r = Some (Num w) \<and> 0 < w \<and>
       (\<forall>y\<in>set (a # ys). \<not> validBodyWeight (bodyWeight (fst y)))"
      using h False by (simp add: a)
    then show ?thesis by blast
  qed
qed

lemma latestBodyWeight_None:
  "latestBodyWeight rt rows = None \<longleftrightarrow>
   (\<forall>r\<in>set rows. parseTimestamp rt (timestamp r) \<noteq> None \<longrightarrow> \<not> validBodyWeight (bodyWeight r))"
  by (auto simp: latestBodyWeight_def firstBodyWeight_None set_withDate)

lemma latestBodyWeight_Some:
  assumes "latestBodyWeight rt rows = Some w"
  shows "0 < w \<and> (\<exists>r\<in>set rows. \<exists>d. parseTimestamp rt (timestamp r) = Some d \<and>
            bodyWeight r = Some (Num w) \<and>
            (\<forall>r'\<in>set rows. \<forall>d'. parseTimestamp rt (timestamp r') = Some d' \<and> d < d' \<longrightarrow>
               \<not> validBodyWeight (bodyWeight r')))"
proof -
  let ?k = "\<lambda>x :: LogRow \<times> int. - snd x"
  let ?s = "sort_key ?k (withDate rt rows)"
  from assms obtain ys r d zs where
    s: "?s = ys @ (r, d) # zs" and bw: "bodyWeight r = Some (Num w)" and pos: "0 < w"
    and before: "\<forall>y\<in>set ys. \<not> validBodyWeight (bodyWeight (fst y))"
    using firstBodyWeight_Some [of ?s w] by (auto simp: latestBodyWeight_def)
  have "(r, d) \<in> set ?s" using s by simp
  then have r: "r \<in> set rows" "parseTimestamp rt (timestamp r) = Some d"
    by (simp_all add: set_withDate)
  have "sorted (map ?k (ys @ (r, d) # zs))" using sorted_sort_key [of ?k "withDate rt rows"] s by simp
  then have after: "\<forall>z\<in>set zs. snd z \<le> d"
    by (auto simp: sorted_append)
  have "\<not> validBodyWeight (bodyWeight r')"
    if "r' \<in> set rows" "parseTimestamp rt (timestamp r') = Some d'" "d < d'" for r' d'
  proof -
    have "(r', d') \<in> set ?s" using that by (simp add: set_withDate)
    then have "(r', d') \<in> set ys \<or> (r', d') = (r, d) \<or> (r', d') \<in> set zs" using s by auto
    then have "(r', d') \<in> set ys" using after that(3) by auto
    then show ?thesis using before by auto
  qed
  then show ?thesis using r bw pos by blast
qed

lemma bestStatsRatios_None:
  "latestBodyWeight rt rows = None \<Longrightarrow>
   bestStatsRatios rt rows = \<lparr>maxBP = None, maxSQ = None, maxDL = None, total = None\<rparr>"
  by (simp add: bestStatsRatios_def)

lemma bestStatsRatios_Some:
  "latestBodyWeight rt rows = Some w \<Longrightarrow>
   bestStatsRatios rt rows =
     \<lparr>maxBP = map_option
         (\<lambda>m. js_div (Math_round (js_mul (js_div m (Num w)) (Num 100))) (Num 100))
         (maxBP (bestStats rows)),
      maxSQ = map_option
         (\<lambda>m. js_div (Math_round (js_mul (js_div m (Num w)) (Num 100))) (Num 100))
         (maxSQ (bestStats rows)),
      maxDL = map_option
         (\<lambda>m. js_div (Math_round (js_mul (js_div m (Num w)) (Num 100))) (Num 100))
         (maxDL (bestStats rows)),
      total = map_option
         (\<lambda>m. js_div (Math_round (js_mul (js_div m (Num w)) (Num 100))) (Num 100))
         (total (bestStats rows))\<rparr>"
  using latestBodyWeight_Some [of rt rows w] by (simp add: bestStatsRatios_def round2_def)







section \<open>Chart points, the timestamp parser and the row decoder\<close>

lemma chartData_nth:
  "i < length rows \<Longrightarrow>
   chartData rt w k rows ! i = chartPoint w k (sortAndFillBpSqDl rt rows ! i)"
  by (simp add: chartData_def sortAndFillBpSqDl_def)

lemma chartPoint_lifts:
  "c_bp (chartPoint w k row) = toNum (bp row)"
  "c_sq (chartPoint w k row) = toNum (sq row)"
  "c_dl (chartPoint w k row) = toNum (dl row)"
  "c_bodyWeight (chartPoint w k row) = toNum (bodyWeight row)"
  by (simp_all add: chartPoint_def Let_def)

lemma chartPoint_total:
  "c_total (chartPoint w k row) =
     (case (c_bp (chartPoint w k row), c_sq (chartPoint w k row), c_dl (chartPoint w k row)) of
        (Some x, Some y, Some z) \<Rightarrow>
          Some (js_div (Math_round (js_mul (js_add (js_add (Num x) (Num y)) (Num z)) (Num 10)))
                       (Num 10))
      | _ \<Rightarrow> None)"
  by (simp add: chartPoint_def Let_def)

lemma chartPoint_ratio:
  "c_ratio (chartPoint w k row) =
     (case toNum (bodyWeight row) of
        Some bw \<Rightarrow>
          if useRatio w k \<and> 0 < bw
          then (case toNum (baseField k (chartPoint w k row)) of
                  Some x \<Rightarrow>
                    Ratio (js_div (Math_round (js_mul (js_div (Num x) (Num bw)) (Num 100)))
                                  (Num 100))
                | None \<Rightarrow> RatioNull)
          else Unset
      | None \<Rightarrow> Unset)"
  by (cases k) (simp_all add: chartPoint_def baseField_def Let_def split: option.splits)

lemma chartData_lifts:
  assumes "i < length rows"
  shows "c_bp (chartData rt w k rows ! i) = emitted (map bp (sort_key (timeKey rt) rows)) i"
    and "c_sq (chartData rt w k rows ! i) = emitted (map sq (sort_key (timeKey rt) rows)) i"
    and "c_dl (chartData rt w k rows ! i) = emitted (map dl (sort_key (timeKey rt) rows)) i"
    and "c_bodyWeight (chartData rt w k rows ! i) = toNum (bodyWeight (sort_key (timeKey rt) rows ! i))"
  using assms sortAndFill_column [of i rows rt] sortAndFill_kept [of i rows rt]
  by (simp_all add: chartData_nth chartPoint_lifts)


lemma chartData_total_value:
  "i < length rows \<Longrightarrow> c_bp (chartData rt w k rows ! i) = Some x \<Longrightarrow>
   c_sq (chartData rt w k rows ! i) = Some y \<Longrightarrow> c_dl (chartData rt w k rows ! i) = Some z \<Longrightarrow>
   c_total (chartData rt w k rows ! i) =
     Some (js_div (Math_round (js_mul (js_add (js_add (Num x) (Num y)) (Num z)) (Num 10))) (Num 10))"
  by (simp add: chartData_nth chartPoint_total)

lemma chartData_ratio:
  assumes "i < length rows"
  shows "c_ratio (chartData rt w k rows ! i) =
     (case toNum (bodyWeight (sort_key (timeKey rt) rows ! i)) of
        Some bw \<Rightarrow>
          if useRatio w k \<and> 0 < bw
          then (case toNum (baseField k (chartData rt w k rows ! i)) of
                  Some x \<Rightarrow>
                    Ratio (js_div (Math_round (js_mul (js_div (Num x) (Num bw)) (Num 100)))
                                  (Num 100))
                | None \<Rightarrow> RatioNull)
          else Unset
      | None \<Rightarrow> Unset)"
  by (simp only: chartData_nth [OF assms] chartPoint_ratio sortAndFill_kept(2) [OF assms])

lemma epoch_product:
  assumes "1000000000 \<le> n" "n < 1000000000000"
  shows "\<exists>y. fl (n * 1000) = Num y \<and> \<bar>y - n * 1000\<bar> \<le> 1 / 8 \<and> newDate (Num y) = Some \<lfloor>y\<rfloor>"
proof -
  have "\<bar>n * 1000\<bar> \<le> 1125899906842624" using assms by linarith
  from fl_close_50 [OF this] obtain y where y: "fl (n * 1000) = Num y" "\<bar>y - n * 1000\<bar> \<le> 1 / 8"
    by auto
  have "0 \<le> y" "\<bar>y\<bar> \<le> 8640000000000000" using y(2) assms by linarith+
  then have "newDate (Num y) = Some \<lfloor>y\<rfloor>" by (simp add: newDate_def)
  then show ?thesis using y by blast
qed

lemma newDate_millis:
  "1000000000000 \<le> n \<Longrightarrow> n < 1000000000000000 \<Longrightarrow> newDate (Num n) = Some \<lfloor>n\<rfloor>"
  by (simp add: newDate_def)

lemma newDate_epoch: "isEpochLike n \<Longrightarrow> newDate (epochMillis n) \<noteq> None"
proof (cases "n < 1000000000000")
  case True
  assume "isEpochLike n"
  then have "1000000000 \<le> n" by (simp add: isEpochLike_def)
  from epoch_product [OF this True] show ?thesis using True by (auto simp: epochMillis_def)
next
  case False
  assume "isEpochLike n"
  then show ?thesis using False newDate_millis [of n] by (simp add: epochMillis_def isEpochLike_def)
qed

lemma parseTimestamp_epoch:
  "ts \<noteq> [] \<Longrightarrow> String_trim rt ts \<noteq> [] \<Longrightarrow> Number_of_string rt (String_trim rt ts) = Num n \<Longrightarrow>
   isEpochLike n \<Longrightarrow> parseTimestamp rt ts = newDate (epochMillis n)"
  by (simp add: parseTimestamp_def Let_def)

lemma getCellTimestamp_epoch:
  "cellRaw cell = Some x \<Longrightarrow> x \<noteq> VStr [] \<Longrightarrow> Number_of_cellval rt x = Num n \<Longrightarrow> isEpochLike n \<Longrightarrow>
   \<exists>t. newDate (epochMillis n) = Some t \<and>
       getCellTimestamp rt (Some cell) = Inr (Date_toISOString rt t)"
  using newDate_epoch [of n] by (auto simp: getCellTimestamp_def)

lemma getCellTimestamp_other:
  "cellRaw cell = Some x \<Longrightarrow> x \<noteq> VStr [] \<Longrightarrow>
   \<not> (\<exists>n. Number_of_cellval rt x = Num n \<and> isEpochLike n) \<Longrightarrow>
   getCellTimestamp rt (Some cell) = Inr (cellDisplay rt cell x)"
  by (auto simp: getCellTimestamp_def split: jsnum.splits)

lemma getCellTimestamp_empty:
  "getCellTimestamp rt None = Inr []"
  "cellRaw cell = None \<or> cellRaw cell = Some (VStr []) \<Longrightarrow> getCellTimestamp rt (Some cell) = Inr []"
  by (auto simp: getCellTimestamp_def)

lemma getCellTimestamp_total: "\<exists>s. getCellTimestamp rt c = Inr s"
proof (cases c)
  case None
  then show ?thesis by (simp add: getCellTimestamp_empty)
next
  case (Some cell)
  show ?thesis
  proof (cases "cellRaw cell = None \<or> cellRaw cell = Some (VStr [])")
    case True
    then show ?thesis using Some getCellTimestamp_empty(2) by blast
  next
    case False
    then obtain x where x: "cellRaw cell = Some x" "x \<noteq> VStr []" by auto
    show ?thesis
    proof (cases "\<exists>n. Number_of_cellval rt x = Num n \<and> isEpochLike n")
      case True
      then show ?thesis using Some x getCellTimestamp_epoch [of cell x rt] by blast
    next
      case False
      then show ?thesis using Some x getCellTimestamp_other by blast
    qed
  qed
qed

lemma getCellNumber_cases:
  "getCellNumber rt None = None"
  "v cell = None \<or> v cell = Some (VStr []) \<Longrightarrow> getCellNumber rt (Some cell) = None"
  "v cell = Some x \<Longrightarrow> \<forall>n. Number_of_cellval rt x \<noteq> Num n \<Longrightarrow> getCellNumber rt (Some cell) = None"
  "v cell = Some x \<Longrightarrow> x \<noteq> VStr [] \<Longrightarrow> Number_of_cellval rt x = Num n \<Longrightarrow>
     getCellNumber rt (Some cell) = Some (Num n)"
  by (auto simp: getCellNumber_def split: jsnum.splits)

lemma cellRaw_Some:
  "cellRaw cell = Some x \<longleftrightarrow>
   v cell = Some x \<or> (v cell = None \<and> (\<exists>s. f cell = Some s \<and> x = VStr s))"
  by (cases "v cell"; cases "f cell") (auto simp: cellRaw_def nullish_def)

lemma cellRaw_None: "cellRaw cell = None \<longleftrightarrow> v cell = None \<and> f cell = None"
  by (cases "v cell"; cases "f cell") (auto simp: cellRaw_def nullish_def)

section \<open>The examples in double arithmetic\<close>



lemma total_overflow:
  "js_div (Math_round (js_mul (js_add (js_add (Num d2_1023) (Num d2_1023)) (Num d2_1023)) (Num 10)))
      (Num 10) = Infinity"
proof -
  have 1: "fl (d2_1023 + d2_1023) = Infinity"
    by (subst fl_eval [where e = 1024]) (simp_all add: d2_1023_def roundTiesToEven_def)
  show ?thesis
    by (simp only: js_add.simps 1) simp
qed

lemma ratio_100_8:
  "js_div (Math_round (js_mul (js_div (Num d100_8) (Num 64)) (Num 100))) (Num 100) = Num d1_58"
proof -
  have 1: "fl (d100_8 / 64) = Num (7093169413108531 / 4503599627370496)"
    by (subst fl_eval [where e = 0]) (simp_all add: d100_8_def roundTiesToEven_def)
  have q1: "js_div (Num d100_8) (Num 64) = Num (7093169413108531 / 4503599627370496)"
    by (simp only: js_div.simps 1) simp
  have 3: "fl (7093169413108531 / 4503599627370496 * 100) = Num (315 / 2)"
    by (subst fl_eval [where e = 7]) (simp_all add: roundTiesToEven_def)
  have 4: "\<lfloor>315 / 2 + 1 / 2 :: real\<rfloor> = 158" by simp
  have 5: "fl (real_of_int 158 / 100) = Num d1_58"
    by (subst fl_eval [where e = 0]) (simp_all add: d1_58_def roundTiesToEven_def)
  have 6: "js_div (Num (real_of_int 158)) (Num 100) = Num d1_58"
    by (simp only: js_div.simps 5) simp
  show ?thesis
    by (simp only: js_mul.simps Math_round.simps q1 3 4 6)
qed

lemma quotient_100_8_below: "d100_8 / 64 < 1575 / 1000 \<and> 1575 / 1000 < d1_58"
  by (simp add: d100_8_def d1_58_def)

lemma ratio_160:
  "js_div (Math_round (js_mul (js_div (Num 160) (Num 64)) (Num 100))) (Num 100) = Num (5 / 2)"
proof -
  have 1: "fl (160 / 64) = Num (5 / 2)"
    by (subst fl_eval [where e = 1]) (simp_all add: roundTiesToEven_def)
  have q1: "js_div (Num 160) (Num 64) = Num (5 / 2)"
    by (simp only: js_div.simps 1) simp
  have 3: "fl (5 / 2 * 100) = Num 250" by simp
  have 4: "\<lfloor>250 + 1 / 2 :: real\<rfloor> = 250" by simp
  have 5: "fl (real_of_int 250 / 100) = Num (5 / 2)"
    by (subst fl_eval [where e = 1]) (simp_all add: roundTiesToEven_def)
  have 6: "js_div (Num (real_of_int 250)) (Num 100) = Num (5 / 2)"
    by (simp only: js_div.simps 5) simp
  show ?thesis
    by (simp only: js_mul.simps Math_round.simps q1 3 4 6)
qed

lemma product_fraction: "fl (3565158400002097 / 2097152 * 1000) = Num 1700000000001"
  by (subst fl_eval [where e = 40]) (simp_all add: roundTiesToEven_def)

section \<open>The claims on ordering and idempotence\<close>

lemmas row_eval_defs =
  sortAndFillBpSqDl_def timeKey_def parseTimestamp_def parseDateString_def replaceSlashes_def
  isEpochLike_def epochMillis_def newDate_def mkRow_def toNum_def Let_def

text \<open>
  Claim C9. The sort-and-fill step is idempotent: applied to its own output it returns
  that output, for every list of rows. The builder is a function of its input, so two
  runs on the same rows agree; and the chart points built from the output of the step are
  the chart points built from the rows.
\<close>

theorem sortAndFillBpSqDl_idempotent:
  "sortAndFillBpSqDl rt (sortAndFillBpSqDl rt rows) = sortAndFillBpSqDl rt rows \<and>
   chartData rt w k (sortAndFillBpSqDl rt rows) = chartData rt w k rows"
proof -
  have "sort_key (timeKey rt) (sortAndFillBpSqDl rt rows) = sortAndFillBpSqDl rt rows"
    by (rule sort_key_id_if_sorted) (rule sorted_sortAndFill)
  then have "sortAndFillBpSqDl rt (sortAndFillBpSqDl rt rows) = sortAndFillBpSqDl rt rows"
    by (simp add: sortAndFillBpSqDl_def fillRows_idem)
  then show ?thesis by (simp add: chartData_def)
qed

text \<open>
  Claim C7. In the output of the sort-and-fill step every row whose timestamp does not
  parse stands after every row whose timestamp parses; the empty timestamp does not parse.
  \<open>getLatestRow\<close> leaves such rows out: it returns nothing exactly when no row has a
  timestamp that parses, and otherwise a row of the input whose parsed timestamp is the
  maximum over the rows that parse.
\<close>

theorem unparseable_rows_last_and_never_latest:
  "(i < length rows \<and> j < length rows \<and>
    parseTimestamp rt (timestamp (sortAndFillBpSqDl rt rows ! i)) = None \<and>
    parseTimestamp rt (timestamp (sortAndFillBpSqDl rt rows ! j)) \<noteq> None \<longrightarrow> j < i) \<and>
   parseTimestamp rt [] = None \<and>
   (getLatestRow rt rows = None \<longleftrightarrow> (\<forall>r\<in>set rows. parseTimestamp rt (timestamp r) = None)) \<and>
   (getLatestRow rt rows = Some r \<longrightarrow>
      r \<in> set rows \<and>
      (\<exists>d. parseTimestamp rt (timestamp r) = Some d \<and>
           (\<forall>r'\<in>set rows. \<forall>d'. parseTimestamp rt (timestamp r') = Some d' \<longrightarrow> d' \<le> d)))"
  using unparseable_after_parseable [of i rows j rt] getLatestRow_None [of rt rows]
    getLatestRow_Some [of rt rows r]
  by (simp add: parseTimestamp_def)

theorem unparseable_rows_last_and_never_latest_witness:
  "(2::nat) < length mixedRows \<and> (0::nat) < length mixedRows \<and>
   parseTimestamp example_runtime (timestamp (sortAndFillBpSqDl example_runtime mixedRows ! 2)) = None \<and>
   parseTimestamp example_runtime (timestamp (sortAndFillBpSqDl example_runtime mixedRows ! 0))
     = Some 1704067200000 \<and>
   getLatestRow example_runtime mixedRows = Some (mkRow ''2024-02-01'' None (Some (Num 100)) None None) \<and>
   mkRow ''2024-02-01'' None (Some (Num 100)) None None \<in> set mixedRows \<and>
   getLatestRow example_runtime summaryRows = None"
proof -
  have latest: "getLatestRow example_runtime mixedRows
      = Some (mkRow ''2024-02-01'' None (Some (Num 100)) None None)"
    by (simp add: getLatestRow_def withDate_def mixedRows_def row_eval_defs example_defs)
  have rows: "parseTimestamp example_runtime (timestamp (sortAndFillBpSqDl example_runtime mixedRows ! 2)) = None"
    "parseTimestamp example_runtime (timestamp (sortAndFillBpSqDl example_runtime mixedRows ! 0))
     = Some 1704067200000"
    by (simp_all add: mixedRows_def row_eval_defs example_defs)
  have undated: "\<forall>r\<in>set summaryRows. parseTimestamp example_runtime (timestamp r) = None"
    by (simp add: summaryRows_def mkRow_def parseTimestamp_def)
  have none: "getLatestRow example_runtime summaryRows = None"
    using unparseable_rows_last_and_never_latest [of 0 summaryRows 0 example_runtime "mkRow [] None None None None"]
      undated by blast
  show ?thesis
    using unparseable_rows_last_and_never_latest
      [of 2 mixedRows 0 example_runtime "mkRow ''2024-02-01'' None (Some (Num 100)) None None"]
      latest rows none
    by (simp add: mixedRows_def mkRow_def)
qed

section \<open>The claims on the summary\<close>

lemmas summary_eval_defs =
  latestBodyWeight_def withDate_def bestStatsRatios_def bestStats_def nums_def maxOrNull_def
  round2_def




lemma gap_1_58: "1 / 200 < d1_58 - d100_8 / 64"
  by (simp add: d100_8_def d1_58_def)




text \<open>
  Claim C6 as the specification states it: each ratio of the summary would be the
  maximum divided by the latest body weight, rounded to two decimals. For
  \<open>weighedRows\<close> the latest body weight is 64 (the later row has none), the best bench
  press is 100.8, the quotient is below 1.575, and the ratio is the double nearest to
  1.58, more than 0.005 above the quotient: the product by 100 rounds up to 157.5 before
  \<^verbatim>\<open>Math.round\<close> is applied.
\<close>

theorem summary_ratio_counterexample:
  "latestBodyWeight example_runtime weighedRows = Some 64 \<and>
   maxBP (bestStats weighedRows) = Some (Num d100_8) \<and>
   maxBP (bestStatsRatios example_runtime weighedRows) = Some (Num d1_58) \<and>
   d100_8 / 64 < 1575 / 1000 \<and> 1575 / 1000 < d1_58 \<and>
   1 / 200 < d1_58 - d100_8 / 64"
proof -
  have a: "latestBodyWeight example_runtime weighedRows = Some 64"
    by (simp add: weighedRows_def summary_eval_defs row_eval_defs example_defs)
  have b: "maxBP (bestStats weighedRows) = Some (Num d100_8)"
    by (simp add: weighedRows_def bestStats_def nums_def maxOrNull_def mkRow_def toNum_def Let_def)
  have "maxBP (bestStatsRatios example_runtime weighedRows) = Some (Num d1_58)"
    unfolding bestStatsRatios_Some [OF a] by (simp only: BestStats.simps b option.map ratio_100_8)
  then show ?thesis
    using a b quotient_100_8_below gap_1_58 by blast
qed

text \<open>
  Claim C6, amended. The latest body weight is absent exactly when no row with a timestamp
  that parses has a finite, strictly positive body weight. Otherwise it is strictly
  positive and is the body weight of a row whose timestamp parses, such that no row with a
  strictly later parsed timestamp has a finite, strictly positive body weight; rows whose
  timestamp does not parse play no part. The ratio summary is absent in all four fields
  when the latest body weight is absent, and otherwise each of its fields is, for a
  present maximum \<open>m\<close>, \<^verbatim>\<open>Math.round(m / w * 100) / 100\<close> computed in double arithmetic.
  When the quotient has magnitude at most \<open>10\<^sup>6\<close> this is the double nearest to a decimal
  with two places and lies within \<open>0.005 + 2\<^sup>-\<^sup>2\<^sup>6\<close> of the exact quotient.
\<close>

theorem latest_body_weight_and_ratios:
  "(latestBodyWeight rt rows = None \<longleftrightarrow>
      (\<forall>r\<in>set rows. parseTimestamp rt (timestamp r) \<noteq> None \<longrightarrow> \<not> validBodyWeight (bodyWeight r))) \<and>
   (latestBodyWeight rt rows = Some w \<longrightarrow>
      0 < w \<and>
      (\<exists>r\<in>set rows. \<exists>d. parseTimestamp rt (timestamp r) = Some d \<and>
         bodyWeight r = Some (Num w) \<and>
         (\<forall>r'\<in>set rows. \<forall>d'. parseTimestamp rt (timestamp r') = Some d' \<and> d < d' \<longrightarrow>
            \<not> validBodyWeight (bodyWeight r'))) \<and>
      bestStatsRatios rt rows =
        \<lparr>maxBP = map_option
            (\<lambda>m. js_div (Math_round (js_mul (js_div m (Num w)) (Num 100))) (Num 100))
            (maxBP (bestStats rows)),
         maxSQ = map_option
            (\<lambda>m. js_div (Math_round (js_mul (js_div m (Num w)) (Num 100))) (Num 100))
            (maxSQ (bestStats rows)),
         maxDL = map_option
            (\<lambda>m. js_div (Math_round (js_mul (js_div m (Num w)) (Num 100))) (Num 100))
            (maxDL (bestStats rows)),
         total = map_option
            (\<lambda>m. js_div (Math_round (js_mul (js_div m (Num w)) (Num 100))) (Num 100))
            (total (bestStats rows))\<rparr> \<and>
      (\<bar>x / w\<bar> \<le> 1000000 \<longrightarrow>
         (\<exists>t j. js_div (Math_round (js_mul (js_div (Num x) (Num w)) (Num 100))) (Num 100) = Num t \<and>
                fl (of_int j / 100) = Num t \<and> \<bar>t - x / w\<bar> \<le> 1 / 200 + 1 / 67108864))) \<and>
   (latestBodyWeight rt rows = None \<longrightarrow>
      bestStatsRatios rt rows = \<lparr>maxBP = None, maxSQ = None, maxDL = None, total = None\<rparr>)"
proof -
  have s: "latestBodyWeight rt rows = Some w \<longrightarrow>
      0 < w \<and>
      (\<exists>r\<in>set rows. \<exists>d. parseTimestamp rt (timestamp r) = Some d \<and>
         bodyWeight r = Some (Num w) \<and>
         (\<forall>r'\<in>set rows. \<forall>d'. parseTimestamp rt (timestamp r') = Some d' \<and> d < d' \<longrightarrow>
            \<not> validBodyWeight (bodyWeight r'))) \<and>
      bestStatsRatios rt rows =
        \<lparr>maxBP = map_option
            (\<lambda>m. js_div (Math_round (js_mul (js_div m (Num w)) (Num 100))) (Num 100))
            (maxBP (bestStats rows)),
         maxSQ = map_option
            (\<lambda>m. js_div (Math_round (js_mul (js_div m (Num w)) (Num 100))) (Num 100))
            (maxSQ (bestStats rows)),
         maxDL = map_option
            (\<lambda>m. js_div (Math_round (js_mul (js_div m (Num w)) (Num 100))) (Num 100))
            (maxDL (bestStats rows)),
         total = map_option
            (\<lambda>m. js_div (Math_round (js_mul (js_div m (Num w)) (Num 100))) (Num 100))
            (total (bestStats rows))\<rparr> \<and>
      (\<bar>x / w\<bar> \<le> 1000000 \<longrightarrow>
         (\<exists>t j. js_div (Math_round (js_mul (js_div (Num x) (Num w)) (Num 100))) (Num 100) = Num t \<and>
                fl (of_int j / 100) = Num t \<and> \<bar>t - x / w\<bar> \<le> 1 / 200 + 1 / 67108864))"
  proof
    assume a: "latestBodyWeight rt rows = Some w"
    note l = latestBodyWeight_Some [OF a]
    then have "w \<noteq> 0" by auto
    then have c: "\<bar>x / w\<bar> \<le> 1000000 \<longrightarrow>
         (\<exists>t j. js_div (Math_round (js_mul (js_div (Num x) (Num w)) (Num 100))) (Num 100) = Num t \<and>
                fl (of_int j / 100) = Num t \<and> \<bar>t - x / w\<bar> \<le> 1 / 200 + 1 / 67108864)"
      using ratio_close [of w x] by blast
    show "0 < w \<and>
      (\<exists>r\<in>set rows. \<exists>d. parseTimestamp rt (timestamp r) = Some d \<and>
         bodyWeight r = Some (Num w) \<and>
         (\<forall>r'\<in>set rows. \<forall>d'. parseTimestamp rt (timestamp r') = Some d' \<and> d < d' \<longrightarrow>
            \<not> validBodyWeight (bodyWeight r'))) \<and>
      bestStatsRatios rt rows =
        \<lparr>maxBP = map_option
            (\<lambda>m. js_div (Math_round (js_mul (js_div m (Num w)) (Num 100))) (Num 100))
            (maxBP (bestStats rows)),
         maxSQ = map_option
            (\<lambda>m. js_div (Math_round (js_mul (js_div m (Num w)) (Num 100))) (Num 100))
            (maxSQ (bestStats rows)),
         maxDL = map_option
            (\<lambda>m. js_div (Math_round (js_mul (js_div m (Num w)) (Num 100))) (Num 100))
            (maxDL (bestStats rows)),
         total = map_option
            (\<lambda>m. js_div (Math_round (js_mul (js_div m (Num w)) (Num 100))) (Num 100))
            (total (bestStats rows))\<rparr> \<and>
      (\<bar>x / w\<bar> \<le> 1000000 \<longrightarrow>
         (\<exists>t j. js_div (Math_round (js_mul (js_div (Num x) (Num w)) (Num 100))) (Num 100) = Num t \<and>
                fl (of_int j / 100) = Num t \<and> \<bar>t - x / w\<bar> \<le> 1 / 200 + 1 / 67108864))"
      using l bestStatsRatios_Some [OF a] c by blast
  qed
  have n: "latestBodyWeight rt rows = None \<longrightarrow>
      bestStatsRatios rt rows = \<lparr>maxBP = None, maxSQ = None, maxDL = None, total = None\<rparr>"
    using bestStatsRatios_None [of rt rows] by blast
  show ?thesis
    by (intro conjI latestBodyWeight_None s n)
qed

theorem latest_body_weight_and_ratios_witness:
  "latestBodyWeight example_runtime weighedRows = Some 64 \<and>
   bestStatsRatios example_runtime weighedRows =
     \<lparr>maxBP = Some (Num d1_58), maxSQ = Some (Num (5 / 2)), maxDL = None, total = None\<rparr> \<and>
   latestBodyWeight example_runtime mixedRows = Some 70 \<and>
   latestBodyWeight example_runtime summaryRows = None \<and>
   bestStatsRatios example_runtime summaryRows =
     \<lparr>maxBP = None, maxSQ = None, maxDL = None, total = None\<rparr>"
proof -
  have a: "latestBodyWeight example_runtime weighedRows = Some 64"
    by (simp add: weighedRows_def summary_eval_defs row_eval_defs example_defs)
  have m: "latestBodyWeight example_runtime mixedRows = Some 70"
    by (simp add: mixedRows_def summary_eval_defs row_eval_defs example_defs)
  have b: "latestBodyWeight example_runtime summaryRows = None"
    by (simp add: summaryRows_def summary_eval_defs row_eval_defs example_defs)
  have c: "maxBP (bestStats weighedRows) = Some (Num d100_8)"
    "maxSQ (bestStats weighedRows) = Some (Num 160)"
    "maxDL (bestStats weighedRows) = None"
    "total (bestStats weighedRows) = None"
    by (simp_all add: weighedRows_def bestStats_def nums_def maxOrNull_def mkRow_def toNum_def Let_def)
  have "bestStatsRatios example_runtime weighedRows =
        \<lparr>maxBP = map_option
            (\<lambda>m. js_div (Math_round (js_mul (js_div m (Num 64)) (Num 100))) (Num 100))
            (maxBP (bestStats weighedRows)),
         maxSQ = map_option
            (\<lambda>m. js_div (Math_round (js_mul (js_div m (Num 64)) (Num 100))) (Num 100))
            (maxSQ (bestStats weighedRows)),
         maxDL = map_option
            (\<lambda>m. js_div (Math_round (js_mul (js_div m (Num 64)) (Num 100))) (Num 100))
            (maxDL (bestStats weighedRows)),
         total = map_option
            (\<lambda>m. js_div (Math_round (js_mul (js_div m (Num 64)) (Num 100))) (Num 100))
            (total (bestStats weighedRows))\<rparr>"
    using latest_body_weight_and_ratios [of example_runtime weighedRows 64 0] a by blast
  then have r: "bestStatsRatios example_runtime weighedRows =
     \<lparr>maxBP = Some (Num d1_58), maxSQ = Some (Num (5 / 2)), maxDL = None, total = None\<rparr>"
    by (simp only: c option.map ratio_100_8 ratio_160)
  have "bestStatsRatios example_runtime summaryRows =
     \<lparr>maxBP = None, maxSQ = None, maxDL = None, total = None\<rparr>"
    using latest_body_weight_and_ratios [of example_runtime summaryRows 0 0] b by blast
  then show ?thesis
    using a m b r by blast
qed

section \<open>The claims on the chart points\<close>


lemma huge_point:
  "c_bp (chartData example_runtime w k hugeRows ! 0) = Some d2_1023"
  "c_sq (chartData example_runtime w k hugeRows ! 0) = Some d2_1023"
  "c_dl (chartData example_runtime w k hugeRows ! 0) = Some d2_1023"
  by (simp_all add: hugeRows_def chartData_nth chartPoint_lifts sortAndFillBpSqDl_def
      mkRow_def toNum_def)

lemma huge_total:
  "c_total (chartData example_runtime w k hugeRows ! 0) = Some Infinity"
proof -
  have "(0::nat) < length hugeRows" by (simp add: hugeRows_def)
  from chartData_total_value [OF this huge_point] show ?thesis
    by (simp only: total_overflow)
qed

lemma ratio_sorted:
  "sort_key (timeKey example_runtime) ratioRows =
     [mkRow ''2024-01-01'' (Some (Num 80)) None None None,
      mkRow ''2024-02-01'' None None None (Some (Num 70)),
      mkRow ''2024-03-01'' None (Some (Num d100_8)) None (Some (Num 64))]"
  by (simp add: ratioRows_def row_eval_defs example_defs)

lemma ratio_fields:
  "baseField Sq (chartData example_runtime True Sq ratioRows ! 1) = None"
  "baseField Sq (chartData example_runtime True Sq ratioRows ! 2) = Some (Num d100_8)"
proof -
  have len: "(1::nat) < length ratioRows" "(2::nat) < length ratioRows"
    by (simp_all add: ratioRows_def)
  have "c_sq (chartData example_runtime True Sq ratioRows ! 1) = None"
    unfolding chartData_lifts(2) [OF len(1)] ratio_sorted
    by (simp add: emitted_def lastKnownGood_def mkRow_def toNum_def)
  then show "baseField Sq (chartData example_runtime True Sq ratioRows ! 1) = None"
    unfolding baseField_def by (simp only: NumericDataKey.case option.map)
  have "c_sq (chartData example_runtime True Sq ratioRows ! 2) = Some d100_8"
    unfolding chartData_lifts(2) [OF len(2)] ratio_sorted
    by (simp add: emitted_def lastKnownGood_def mkRow_def toNum_def)
  then show "baseField Sq (chartData example_runtime True Sq ratioRows ! 2) = Some (Num d100_8)"
    unfolding baseField_def by (simp only: NumericDataKey.case option.map)
qed

lemma ratio_own:
  "bodyWeight (sort_key (timeKey example_runtime) ratioRows ! 1) = Some (Num 70)"
  "bodyWeight (sort_key (timeKey example_runtime) ratioRows ! 2) = Some (Num 64)"
  by (simp_all add: ratio_sorted mkRow_def)

lemma useRatio_Sq: "useRatio True Sq"
  by (simp add: useRatio_def RATIO_KEYS_def)

lemma ratio_values:
  "c_ratio (chartData example_runtime True Sq ratioRows ! 1) = RatioNull"
  "c_ratio (chartData example_runtime True Sq ratioRows ! 2) = Ratio (Num d1_58)"
proof -
  have len: "(1::nat) < length ratioRows" "(2::nat) < length ratioRows"
    by (simp_all add: ratioRows_def)
  show "c_ratio (chartData example_runtime True Sq ratioRows ! 1) = RatioNull"
    unfolding chartData_ratio [OF len(1)] ratio_own ratio_fields
    by (simp add: toNum_def useRatio_Sq)
  have "c_ratio (chartData example_runtime True Sq ratioRows ! 2)
      = Ratio (js_div (Math_round (js_mul (js_div (Num d100_8) (Num 64)) (Num 100))) (Num 100))"
    unfolding chartData_ratio [OF len(2)] ratio_own ratio_fields
    by (simp add: toNum_def useRatio_Sq del: js_div.simps(1) js_mul.simps(1) Math_round.simps(1))
  then show "c_ratio (chartData example_runtime True Sq ratioRows ! 2) = Ratio (Num d1_58)"
    by (simp only: ratio_100_8)
qed




text \<open>
  Claim C5 as the specification states it: in ratio mode the ratio would be present
  whenever the row's own body weight is present and positive, and be the quotient rounded
  to two decimals. At the second point of \<open>ratioRows\<close>, in ratio mode for the squat, the
  row's own body weight is 70 and the ratio is \<^verbatim>\<open>null\<close>, because no squat value has
  been seen up to that point. At the third point the squat is 100.8 and the body weight
  64: the quotient is below 1.575 and the ratio is the double nearest to 1.58, more than
  0.005 above the quotient.
\<close>

theorem ratio_without_field_counterexample:
  "bodyWeight (sort_key (timeKey example_runtime) ratioRows ! 1) = Some (Num 70) \<and>
   c_ratio (chartData example_runtime True Sq ratioRows ! 1) = RatioNull \<and>
   bodyWeight (sort_key (timeKey example_runtime) ratioRows ! 2) = Some (Num 64) \<and>
   baseField Sq (chartData example_runtime True Sq ratioRows ! 2) = Some (Num d100_8) \<and>
   c_ratio (chartData example_runtime True Sq ratioRows ! 2) = Ratio (Num d1_58) \<and>
   d100_8 / 64 < 1575 / 1000 \<and> 1575 / 1000 < d1_58 \<and>
   1 / 200 < d1_58 - d100_8 / 64"
  using ratio_own ratio_values ratio_fields(2) quotient_100_8_below gap_1_58 by blast

text \<open>
  Claim C5, amended. In ratio mode for one of total, bp, sq, dl, at every point of the
  series: the body weight of the point is the row's own, not filled; the ratio is a
  number exactly when that body weight is present, finite and strictly positive and the
  value of the field at the point (forward-filled for a lift) is present and finite; and
  it is then \<^verbatim>\<open>Math.round(x / bw * 100) / 100\<close> computed in double arithmetic, for the
  value \<open>x\<close> of the field and the row's own body weight \<open>bw\<close>. When the quotient has
  magnitude at most \<open>10\<^sup>6\<close> the ratio is the double nearest to a decimal with two places
  and lies within \<open>0.005 + 2\<^sup>-\<^sup>2\<^sup>6\<close> of the exact quotient.
\<close>

theorem ratio_present_iff:
  "i < length rows \<and> useRatio w k \<longrightarrow>
     c_bodyWeight (chartData rt w k rows ! i) = toNum (bodyWeight (sort_key (timeKey rt) rows ! i)) \<and>
     ((\<exists>q. c_ratio (chartData rt w k rows ! i) = Ratio q) \<longleftrightarrow>
        validBodyWeight (bodyWeight (sort_key (timeKey rt) rows ! i)) \<and>
        (\<exists>u. baseField k (chartData rt w k rows ! i) = Some (Num u))) \<and>
     (bodyWeight (sort_key (timeKey rt) rows ! i) = Some (Num bw) \<and> 0 < bw \<and>
      baseField k (chartData rt w k rows ! i) = Some (Num x) \<longrightarrow>
        c_ratio (chartData rt w k rows ! i)
          = Ratio (js_div (Math_round (js_mul (js_div (Num x) (Num bw)) (Num 100))) (Num 100)) \<and>
        (\<bar>x / bw\<bar> \<le> 1000000 \<longrightarrow>
           (\<exists>t j. c_ratio (chartData rt w k rows ! i) = Ratio (Num t) \<and>
                  fl (of_int j / 100) = Num t \<and>
                  \<bar>t - x / bw\<bar> \<le> 1 / 200 + 1 / 67108864)))"
proof
  assume a: "i < length rows \<and> useRatio w k"
  then have i: "i < length rows" and u: "useRatio w k" by simp_all
  let ?p = "chartData rt w k rows ! i"
  let ?own = "bodyWeight (sort_key (timeKey rt) rows ! i)"
  have r: "c_ratio ?p =
     (case toNum ?own of
        Some b \<Rightarrow>
          if 0 < b
          then (case toNum (baseField k ?p) of
                  Some x \<Rightarrow>
                    Ratio (js_div (Math_round (js_mul (js_div (Num x) (Num b)) (Num 100)))
                             (Num 100))
                | None \<Rightarrow> RatioNull)
          else Unset
      | None \<Rightarrow> Unset)"
    using chartData_ratio [OF i, of rt w k] u by (simp cong: option.case_cong)
  have p1: "(\<exists>q. c_ratio ?p = Ratio q) \<longleftrightarrow>
      validBodyWeight ?own \<and> (\<exists>u. baseField k ?p = Some (Num u))"
    unfolding r
    by (auto simp: validBodyWeight_def toNum_def split: option.splits jsnum.splits)
  have p2: "?own = Some (Num bw) \<and> 0 < bw \<and> baseField k ?p = Some (Num x) \<longrightarrow>
        c_ratio ?p
          = Ratio (js_div (Math_round (js_mul (js_div (Num x) (Num bw)) (Num 100))) (Num 100)) \<and>
        (\<bar>x / bw\<bar> \<le> 1000000 \<longrightarrow>
           (\<exists>t j. c_ratio ?p = Ratio (Num t) \<and> fl (of_int j / 100) = Num t \<and>
                  \<bar>t - x / bw\<bar> \<le> 1 / 200 + 1 / 67108864))"
  proof
    assume b: "?own = Some (Num bw) \<and> 0 < bw \<and> baseField k ?p = Some (Num x)"
    then have e: "c_ratio ?p
          = Ratio (js_div (Math_round (js_mul (js_div (Num x) (Num bw)) (Num 100))) (Num 100))"
      unfolding r by (simp add: toNum_def del: js_div.simps(1) js_mul.simps(1) Math_round.simps(1))
    from b have "bw \<noteq> 0" by auto
    then have c: "\<bar>x / bw\<bar> \<le> 1000000 \<longrightarrow>
           (\<exists>t j. c_ratio ?p = Ratio (Num t) \<and> fl (of_int j / 100) = Num t \<and>
                  \<bar>t - x / bw\<bar> \<le> 1 / 200 + 1 / 67108864)"
      using ratio_close [of bw x] unfolding e by blast
    show "c_ratio ?p
          = Ratio (js_div (Math_round (js_mul (js_div (Num x) (Num bw)) (Num 100))) (Num 100)) \<and>
        (\<bar>x / bw\<bar> \<le> 1000000 \<longrightarrow>
           (\<exists>t j. c_ratio ?p = Ratio (Num t) \<and> fl (of_int j / 100) = Num t \<and>
                  \<bar>t - x / bw\<bar> \<le> 1 / 200 + 1 / 67108864))"
      using e c by blast
  qed
  show "c_bodyWeight ?p = toNum ?own \<and>
     ((\<exists>q. c_ratio ?p = Ratio q) \<longleftrightarrow>
        validBodyWeight ?own \<and> (\<exists>u. baseField k ?p = Some (Num u))) \<and>
     (?own = Some (Num bw) \<and> 0 < bw \<and> baseField k ?p = Some (Num x) \<longrightarrow>
        c_ratio ?p
          = Ratio (js_div (Math_round (js_mul (js_div (Num x) (Num bw)) (Num 100))) (Num 100)) \<and>
        (\<bar>x / bw\<bar> \<le> 1000000 \<longrightarrow>
           (\<exists>t j. c_ratio ?p = Ratio (Num t) \<and> fl (of_int j / 100) = Num t \<and>
                  \<bar>t - x / bw\<bar> \<le> 1 / 200 + 1 / 67108864)))"
    by (intro conjI chartData_lifts(4) [OF i] p1 p2)
qed

theorem ratio_present_iff_witness:
  "(2::nat) < length ratioRows \<and> useRatio True Sq \<and>
   bodyWeight (sort_key (timeKey example_runtime) ratioRows ! 2) = Some (Num 64) \<and>
   baseField Sq (chartData example_runtime True Sq ratioRows ! 2) = Some (Num d100_8) \<and>
   c_ratio (chartData example_runtime True Sq ratioRows ! 2) = Ratio (Num d1_58) \<and>
   baseField Sq (chartData example_runtime True Sq ratioRows ! 1) = None \<and>
   c_ratio (chartData example_runtime True Sq ratioRows ! 1) \<noteq> Ratio (Num (10 / 7)) \<and>
   baseField Total (chartData example_runtime True Total hugeRows ! 0) = Some Infinity \<and>
   c_ratio (chartData example_runtime True Total hugeRows ! 0) \<noteq> Ratio Infinity"
proof -
  have len: "(2::nat) < length ratioRows" "(1::nat) < length ratioRows"
    "(0::nat) < length hugeRows"
    by (simp_all add: ratioRows_def hugeRows_def)
  have u: "useRatio True Sq" "useRatio True Total"
    by (simp_all add: useRatio_def RATIO_KEYS_def)
  have pos: "(0::real) < 64" by simp
  have h: "baseField Total (chartData example_runtime True Total hugeRows ! 0) = Some Infinity"
    by (simp add: baseField_def huge_total)
  then have nofin: "\<not> (\<exists>u. baseField Total (chartData example_runtime True Total hugeRows ! 0)
      = Some (Num u))"
    by simp
  have nofld: "\<not> (\<exists>u. baseField Sq (chartData example_runtime True Sq ratioRows ! 1)
      = Some (Num u))"
    using ratio_fields(1) by simp
  have "c_ratio (chartData example_runtime True Sq ratioRows ! 2)
      = Ratio (js_div (Math_round (js_mul (js_div (Num d100_8) (Num 64)) (Num 100))) (Num 100))"
    using ratio_present_iff [of 2 ratioRows True Sq example_runtime 64 d100_8]
      len(1) u(1) ratio_own(2) pos ratio_fields(2)
    by blast
  moreover have "c_ratio (chartData example_runtime True Sq ratioRows ! 1) \<noteq> Ratio (Num (10 / 7))"
    using ratio_present_iff [of 1 ratioRows True Sq example_runtime 0 0] len(2) u(1) nofld
    by blast
  moreover have "c_ratio (chartData example_runtime True Total hugeRows ! 0) \<noteq> Ratio Infinity"
    using ratio_present_iff [of 0 hugeRows True Total example_runtime 0 0] len(3) u(2) nofin
    by blast
  ultimately show ?thesis
    unfolding ratio_100_8 using len(1) u(1) ratio_own(2) ratio_fields h by blast
qed

section \<open>The claims on the timestamp parser and the row decoder\<close>

lemmas cell_eval_defs =
  getCellTimestamp_def getCellNumber_def cellRaw_def cellDisplay_def nullish_def
  isEpochLike_def epochMillis_def newDate_def

text \<open>
  Claim C8. \<open>getCellNumber\<close> decodes a missing cell, a cell without a value, the empty
  string and a value that converts to a non-finite number to absent, and any other value
  to the number it converts to. \<open>getCellTimestamp\<close> always returns a string. It is the
  empty string for a missing cell, for a cell whose value is the empty string, and for a
  cell without a value whose formatted string is missing or empty. Otherwise the raw
  value is the value of the cell or, when the cell has none, its formatted string. When
  the raw value converts to a number \<open>n\<close> in \<open>[1e9, 1e15)\<close> the result is the ISO string
  of the runtime, for \<open>n\<close> cut to whole milliseconds when \<open>n \<ge> 1e12\<close> and for the
  double product \<open>n * 1000\<close>, which lies within \<open>1/8\<close> of the exact product, cut to whole
  milliseconds when \<open>n < 1e12\<close>. In every other case the result is the formatted string
  of the cell when it has one, and the value converted to a string when it has none.
\<close>

theorem decoder_recovers_locally:
  "(\<exists>s. getCellTimestamp rt c = Inr s) \<and>
   getCellNumber rt None = None \<and>
   (v cell = None \<or> v cell = Some (VStr []) \<longrightarrow> getCellNumber rt (Some cell) = None) \<and>
   (v cell = Some x \<and> (\<forall>m. Number_of_cellval rt x \<noteq> Num m) \<longrightarrow>
      getCellNumber rt (Some cell) = None) \<and>
   (v cell = Some x \<and> x \<noteq> VStr [] \<and> Number_of_cellval rt x = Num n \<longrightarrow>
      getCellNumber rt (Some cell) = Some (Num n)) \<and>
   getCellTimestamp rt None = Inr [] \<and>
   (v cell = Some (VStr []) \<or> (v cell = None \<and> (f cell = None \<or> f cell = Some [])) \<longrightarrow>
      getCellTimestamp rt (Some cell) = Inr []) \<and>
   ((v cell = Some x \<or> (v cell = None \<and> f cell = Some s \<and> x = VStr s)) \<and> x \<noteq> VStr [] \<longrightarrow>
      (Number_of_cellval rt x = Num n \<and> 1000000000 \<le> n \<and> n < 1000000000000 \<longrightarrow>
         (\<exists>y. fl (n * 1000) = Num y \<and> \<bar>y - n * 1000\<bar> \<le> 1 / 8 \<and>
              getCellTimestamp rt (Some cell) = Inr (Date_toISOString rt \<lfloor>y\<rfloor>))) \<and>
      (Number_of_cellval rt x = Num n \<and> 1000000000000 \<le> n \<and> n < 1000000000000000 \<longrightarrow>
         getCellTimestamp rt (Some cell) = Inr (Date_toISOString rt \<lfloor>n\<rfloor>)) \<and>
      ((\<forall>m. Number_of_cellval rt x = Num m \<longrightarrow> m < 1000000000 \<or> 1000000000000000 \<le> m) \<longrightarrow>
         getCellTimestamp rt (Some cell)
           = Inr (case f cell of Some d \<Rightarrow> d | None \<Rightarrow> String_of_cellval rt x)))"
proof -
  have n1: "v cell = None \<or> v cell = Some (VStr []) \<longrightarrow> getCellNumber rt (Some cell) = None"
    using getCellNumber_cases(2) [of cell rt] by blast
  have n2: "v cell = Some x \<and> (\<forall>m. Number_of_cellval rt x \<noteq> Num m) \<longrightarrow>
      getCellNumber rt (Some cell) = None"
    using getCellNumber_cases(3) [of cell x rt] by blast
  have n3: "v cell = Some x \<and> x \<noteq> VStr [] \<and> Number_of_cellval rt x = Num n \<longrightarrow>
      getCellNumber rt (Some cell) = Some (Num n)"
    using getCellNumber_cases(4) [of cell x rt n] by blast
  have t1: "v cell = Some (VStr []) \<or> (v cell = None \<and> (f cell = None \<or> f cell = Some [])) \<longrightarrow>
      getCellTimestamp rt (Some cell) = Inr []"
  proof
    assume "v cell = Some (VStr []) \<or> (v cell = None \<and> (f cell = None \<or> f cell = Some []))"
    then have "cellRaw cell = None \<or> cellRaw cell = Some (VStr [])"
      unfolding cellRaw_Some cellRaw_None by blast
    then show "getCellTimestamp rt (Some cell) = Inr []"
      by (rule getCellTimestamp_empty(2))
  qed
  have t2: "(v cell = Some x \<or> (v cell = None \<and> f cell = Some s \<and> x = VStr s)) \<and> x \<noteq> VStr [] \<longrightarrow>
      (Number_of_cellval rt x = Num n \<and> 1000000000 \<le> n \<and> n < 1000000000000 \<longrightarrow>
         (\<exists>y. fl (n * 1000) = Num y \<and> \<bar>y - n * 1000\<bar> \<le> 1 / 8 \<and>
              getCellTimestamp rt (Some cell) = Inr (Date_toISOString rt \<lfloor>y\<rfloor>))) \<and>
      (Number_of_cellval rt x = Num n \<and> 1000000000000 \<le> n \<and> n < 1000000000000000 \<longrightarrow>
         getCellTimestamp rt (Some cell) = Inr (Date_toISOString rt \<lfloor>n\<rfloor>)) \<and>
      ((\<forall>m. Number_of_cellval rt x = Num m \<longrightarrow> m < 1000000000 \<or> 1000000000000000 \<le> m) \<longrightarrow>
         getCellTimestamp rt (Some cell)
           = Inr (case f cell of Some d \<Rightarrow> d | None \<Rightarrow> String_of_cellval rt x))"
  proof
    assume a: "(v cell = Some x \<or> (v cell = None \<and> f cell = Some s \<and> x = VStr s)) \<and> x \<noteq> VStr []"
    then have raw: "cellRaw cell = Some x" "x \<noteq> VStr []"
      unfolding cellRaw_Some by blast+
    have secs: "\<exists>y. fl (n * 1000) = Num y \<and> \<bar>y - n * 1000\<bar> \<le> 1 / 8 \<and>
              getCellTimestamp rt (Some cell) = Inr (Date_toISOString rt \<lfloor>y\<rfloor>)"
      if b: "Number_of_cellval rt x = Num n \<and> 1000000000 \<le> n \<and> n < 1000000000000"
    proof -
      from b have e: "isEpochLike n" by (simp add: isEpochLike_def)
      from b epoch_product [of n] obtain y where
        y: "fl (n * 1000) = Num y" "\<bar>y - n * 1000\<bar> \<le> 1 / 8" "newDate (Num y) = Some \<lfloor>y\<rfloor>"
        by blast
      have "newDate (epochMillis n) = Some \<lfloor>y\<rfloor>" using b y(1,3) by (simp add: epochMillis_def)
      then have "getCellTimestamp rt (Some cell) = Inr (Date_toISOString rt \<lfloor>y\<rfloor>)"
        using getCellTimestamp_epoch [OF raw _ e, of rt] b by auto
      then show ?thesis using y(1,2) by blast
    qed
    have millis: "getCellTimestamp rt (Some cell) = Inr (Date_toISOString rt \<lfloor>n\<rfloor>)"
      if b: "Number_of_cellval rt x = Num n \<and> 1000000000000 \<le> n \<and> n < 1000000000000000"
    proof -
      from b have e: "isEpochLike n" by (simp add: isEpochLike_def)
      have "newDate (epochMillis n) = Some \<lfloor>n\<rfloor>"
        using b newDate_millis [of n] by (simp add: epochMillis_def)
      then show ?thesis
        using getCellTimestamp_epoch [OF raw _ e, of rt] b by auto
    qed
    have other: "getCellTimestamp rt (Some cell)
           = Inr (case f cell of Some d \<Rightarrow> d | None \<Rightarrow> String_of_cellval rt x)"
      if b: "\<forall>m. Number_of_cellval rt x = Num m \<longrightarrow> m < 1000000000 \<or> 1000000000000000 \<le> m"
    proof -
      from b have "\<not> (\<exists>m. Number_of_cellval rt x = Num m \<and> isEpochLike m)"
        by (auto simp: isEpochLike_def)
      from getCellTimestamp_other [OF raw this] show ?thesis
        by (simp add: cellDisplay_def)
    qed
    show "(Number_of_cellval rt x = Num n \<and> 1000000000 \<le> n \<and> n < 1000000000000 \<longrightarrow>
         (\<exists>y. fl (n * 1000) = Num y \<and> \<bar>y - n * 1000\<bar> \<le> 1 / 8 \<and>
              getCellTimestamp rt (Some cell) = Inr (Date_toISOString rt \<lfloor>y\<rfloor>))) \<and>
      (Number_of_cellval rt x = Num n \<and> 1000000000000 \<le> n \<and> n < 1000000000000000 \<longrightarrow>
         getCellTimestamp rt (Some cell) = Inr (Date_toISOString rt \<lfloor>n\<rfloor>)) \<and>
      ((\<forall>m. Number_of_cellval rt x = Num m \<longrightarrow> m < 1000000000 \<or> 1000000000000000 \<le> m) \<longrightarrow>
         getCellTimestamp rt (Some cell)
           = Inr (case f cell of Some d \<Rightarrow> d | None \<Rightarrow> String_of_cellval rt x))"
      using secs millis other by blast
  qed
  show ?thesis
    by (intro conjI getCellTimestamp_total getCellNumber_cases(1) n1 n2 n3
        getCellTimestamp_empty(1) t1 t2)
qed

theorem decoder_recovers_locally_witness:
  "getCellTimestamp example_runtime (Some epochCell) = Inr ''2023-11-14T22:13:20.000Z'' \<and>
   getCellTimestamp example_runtime (Some formulaCell) = Inr ''2023-11-14T22:13:20.000Z'' \<and>
   getCellTimestamp example_runtime (Some fractionCell) = Inr ''2023-11-14T22:13:20.001Z'' \<and>
   getCellTimestamp example_runtime (Some formattedCell) = Inr ''2024/06/01'' \<and>
   getCellTimestamp example_runtime (Some slashCell) = Inr ''2024/06/01'' \<and>
   getCellTimestamp example_runtime (Some emptyCell) = Inr [] \<and>
   getCellNumber example_runtime (Some emptyCell) = None \<and>
   getCellNumber example_runtime (Some formulaCell) = None \<and>
   getCellNumber example_runtime (Some slashCell) = None \<and>
   getCellNumber example_runtime (Some weightCell) = Some (Num 5)"
proof -
  have whole: "fl (1700000000 * 1000) = Num 1700000000000" by simp
  have iso: "Date_toISOString example_runtime \<lfloor>1700000000000 :: real\<rfloor> = ''2023-11-14T22:13:20.000Z''"
    "Date_toISOString example_runtime \<lfloor>1700000000001 :: real\<rfloor> = ''2023-11-14T22:13:20.001Z''"
    by (simp_all add: example_defs)
  have e: "(v epochCell = Some (VNum (Num 1700000000)) \<or>
       (v epochCell = None \<and> f epochCell = Some [] \<and> VNum (Num 1700000000) = VStr [])) \<and>
      VNum (Num 1700000000) \<noteq> VStr []"
    "Number_of_cellval example_runtime (VNum (Num 1700000000)) = Num 1700000000 \<and>
      (1000000000::real) \<le> 1700000000 \<and> (1700000000::real) < 1000000000000"
    by (simp_all add: epochCell_def)
  have "\<exists>y. fl (1700000000 * 1000) = Num y \<and>
      getCellTimestamp example_runtime (Some epochCell) = Inr (Date_toISOString example_runtime \<lfloor>y\<rfloor>)"
    using decoder_recovers_locally
      [of example_runtime None epochCell "VNum (Num 1700000000)" 1700000000 "[]"] e
    by blast
  then have c1: "getCellTimestamp example_runtime (Some epochCell)
      = Inr (Date_toISOString example_runtime \<lfloor>1700000000000 :: real\<rfloor>)"
    by (auto simp only: whole jsnum.inject)
  have fo: "(v formulaCell = Some (VStr ''1700000000'') \<or>
       (v formulaCell = None \<and> f formulaCell = Some ''1700000000'' \<and>
        VStr ''1700000000'' = VStr ''1700000000'')) \<and>
      VStr ''1700000000'' \<noteq> VStr []"
    "Number_of_cellval example_runtime (VStr ''1700000000'') = Num 1700000000 \<and>
      (1000000000::real) \<le> 1700000000 \<and> (1700000000::real) < 1000000000000"
    "v formulaCell = None \<or> v formulaCell = Some (VStr [])"
    by (simp_all add: formulaCell_def example_defs)
  have "\<exists>y. fl (1700000000 * 1000) = Num y \<and>
      getCellTimestamp example_runtime (Some formulaCell) = Inr (Date_toISOString example_runtime \<lfloor>y\<rfloor>)"
    using decoder_recovers_locally
      [of example_runtime None formulaCell "VStr ''1700000000''" 1700000000 "''1700000000''"] fo(1,2)
    by blast
  then have c2: "getCellTimestamp example_runtime (Some formulaCell)
      = Inr (Date_toISOString example_runtime \<lfloor>1700000000000 :: real\<rfloor>)"
    by (auto simp only: whole jsnum.inject)
  have c2n: "getCellNumber example_runtime (Some formulaCell) = None"
    using decoder_recovers_locally
      [of example_runtime None formulaCell "VStr ''1700000000''" 1700000000 "''1700000000''"] fo(3)
    by blast
  have fr: "(v fractionCell = Some (VNum (Num (3565158400002097 / 2097152))) \<or>
       (v fractionCell = None \<and> f fractionCell = Some [] \<and>
        VNum (Num (3565158400002097 / 2097152)) = VStr [])) \<and>
      VNum (Num (3565158400002097 / 2097152)) \<noteq> VStr []"
    "Number_of_cellval example_runtime (VNum (Num (3565158400002097 / 2097152)))
        = Num (3565158400002097 / 2097152) \<and>
      (1000000000::real) \<le> 3565158400002097 / 2097152 \<and>
      (3565158400002097 / 2097152 :: real) < 1000000000000"
    by (simp_all add: fractionCell_def)
  have "\<exists>y. fl (3565158400002097 / 2097152 * 1000) = Num y \<and>
      getCellTimestamp example_runtime (Some fractionCell)
        = Inr (Date_toISOString example_runtime \<lfloor>y\<rfloor>)"
    using decoder_recovers_locally
      [of example_runtime None fractionCell "VNum (Num (3565158400002097 / 2097152))"
          "3565158400002097 / 2097152" "[]"] fr
    by blast
  then have c3: "getCellTimestamp example_runtime (Some fractionCell)
      = Inr (Date_toISOString example_runtime \<lfloor>1700000000001 :: real\<rfloor>)"
    by (auto simp only: product_fraction jsnum.inject)
  have fm: "(v formattedCell = Some (VStr ''Date(2024,5,1)'') \<or>
       (v formattedCell = None \<and> f formattedCell = Some [] \<and> VStr ''Date(2024,5,1)'' = VStr [])) \<and>
      VStr ''Date(2024,5,1)'' \<noteq> VStr []"
    "\<forall>m. Number_of_cellval example_runtime (VStr ''Date(2024,5,1)'') = Num m \<longrightarrow>
        m < 1000000000 \<or> 1000000000000000 \<le> m"
    "(case f formattedCell of Some d \<Rightarrow> d
      | None \<Rightarrow> String_of_cellval example_runtime (VStr ''Date(2024,5,1)'')) = ''2024/06/01''"
    by (simp_all add: formattedCell_def example_defs)
  have c4: "getCellTimestamp example_runtime (Some formattedCell) = Inr ''2024/06/01''"
    using decoder_recovers_locally
      [of example_runtime None formattedCell "VStr ''Date(2024,5,1)''" 0 "[]"] fm(1,2)
    unfolding fm(3) by blast
  have sl: "(v slashCell = Some (VStr ''2024/06/01'') \<or>
       (v slashCell = None \<and> f slashCell = Some [] \<and> VStr ''2024/06/01'' = VStr [])) \<and>
      VStr ''2024/06/01'' \<noteq> VStr []"
    "\<forall>m. Number_of_cellval example_runtime (VStr ''2024/06/01'') = Num m \<longrightarrow>
        m < 1000000000 \<or> 1000000000000000 \<le> m"
    "(case f slashCell of Some d \<Rightarrow> d
      | None \<Rightarrow> String_of_cellval example_runtime (VStr ''2024/06/01'')) = ''2024/06/01''"
    "v slashCell = Some (VStr ''2024/06/01'') \<and>
      (\<forall>m. Number_of_cellval example_runtime (VStr ''2024/06/01'') \<noteq> Num m)"
    by (simp_all add: slashCell_def example_defs)
  have c5: "getCellTimestamp example_runtime (Some slashCell) = Inr ''2024/06/01''"
    using decoder_recovers_locally
      [of example_runtime None slashCell "VStr ''2024/06/01''" 0 "[]"] sl(1,2)
    unfolding sl(3) by blast
  have c5n: "getCellNumber example_runtime (Some slashCell) = None"
    using decoder_recovers_locally
      [of example_runtime None slashCell "VStr ''2024/06/01''" 0 "[]"] sl(4)
    by blast
  have em: "v emptyCell = Some (VStr []) \<or>
      (v emptyCell = None \<and> (f emptyCell = None \<or> f emptyCell = Some []))"
    "v emptyCell = None \<or> v emptyCell = Some (VStr [])"
    by (simp_all add: emptyCell_def)
  have c6: "getCellTimestamp example_runtime (Some emptyCell) = Inr [] \<and>
      getCellNumber example_runtime (Some emptyCell) = None"
    using decoder_recovers_locally [of example_runtime None emptyCell "VStr []" 0 "[]"] em
    by blast
  have w: "v weightCell = Some (VNum (Num 5)) \<and> VNum (Num 5) \<noteq> VStr [] \<and>
      Number_of_cellval example_runtime (VNum (Num 5)) = Num 5"
    by (simp add: weightCell_def)
  have c7: "getCellNumber example_runtime (Some weightCell) = Some (Num 5)"
    using decoder_recovers_locally [of example_runtime None weightCell "VNum (Num 5)" 5 "[]"] w
    by blast
  show ?thesis
    using c1 c2 c2n c3 c4 c5 c5n c6 c7 unfolding iso by blast
qed

text \<open>
  Claim C10. For a number in \<open>[1e9, 1e15)\<close> the millisecond value is always a valid
  time value, so \<open>parseTimestamp\<close> does not return \<^verbatim>\<open>null\<close> on such an input and
  \<open>getCellTimestamp\<close> does not raise the \<^verbatim>\<open>RangeError\<close> of \<^verbatim>\<open>toISOString\<close>.
\<close>

theorem epoch_always_valid:
  "(isEpochLike n \<longrightarrow> newDate (epochMillis n) \<noteq> None) \<and>
   (ts \<noteq> [] \<and> String_trim rt ts \<noteq> [] \<and> Number_of_string rt (String_trim rt ts) = Num n \<and>
    isEpochLike n \<longrightarrow> parseTimestamp rt ts \<noteq> None) \<and>
   (cellRaw cell = Some x \<and> x \<noteq> VStr [] \<and> Number_of_cellval rt x = Num n \<and> isEpochLike n \<longrightarrow>
      getCellTimestamp rt (Some cell) \<noteq> Inl RangeError \<and>
      (\<exists>s. getCellTimestamp rt (Some cell) = Inr s))"
  using newDate_epoch [of n] parseTimestamp_epoch [of ts rt n] getCellTimestamp_epoch [of cell x rt n]
  by auto

theorem epoch_always_valid_witness:
  "isEpochLike 1700000000 \<and> newDate (epochMillis 1700000000) = Some 1700000000000 \<and>
   parseTimestamp example_runtime ''1700000000'' = Some 1700000000000 \<and>
   getCellTimestamp example_runtime (Some epochCell) = Inr ''2023-11-14T22:13:20.000Z''"
proof -
  have e: "isEpochLike 1700000000"
    by (simp add: isEpochLike_def)
  have h: "''1700000000'' \<noteq> [] \<and> String_trim example_runtime ''1700000000'' \<noteq> [] \<and>
      Number_of_string example_runtime (String_trim example_runtime ''1700000000'') = Num 1700000000"
    by (simp add: example_defs)
  have c: "cellRaw epochCell = Some (VNum (Num 1700000000)) \<and> VNum (Num 1700000000) \<noteq> VStr [] \<and>
      Number_of_cellval example_runtime (VNum (Num 1700000000)) = Num 1700000000"
    by (simp add: epochCell_def cellRaw_def)
  have "newDate (epochMillis 1700000000) \<noteq> None \<and>
        parseTimestamp example_runtime ''1700000000'' \<noteq> None \<and>
        getCellTimestamp example_runtime (Some epochCell) \<noteq> Inl RangeError"
    using epoch_always_valid
      [of 1700000000 "''1700000000''" example_runtime epochCell "VNum (Num 1700000000)"] e h c
    by blast
  then show ?thesis
    using e
    by (simp add: parseTimestamp_def cell_eval_defs epochCell_def example_defs)
qed

text \<open>
  Claim C2 as the specification states it: every numeric string whose magnitude lies in
  \<open>[1e9, 1e15)\<close> would give a timestamp equal to that many seconds or milliseconds.
  The string \<^verbatim>\<open>1700000000000.5\<close> gives the time value 1700000000000: a date holds
  whole milliseconds. The string \<^verbatim>\<open>-2000000000\<close> has its magnitude in the range and
  is not taken as an epoch: the test is on the number itself.
\<close>

theorem epoch_seconds_or_millis_counterexample:
  "Number_of_string example_runtime ''1700000000000.5'' = Num (3400000000001 / 2) \<and>
   parseTimestamp example_runtime ''1700000000000.5'' = Some 1700000000000 \<and>
   real_of_int 1700000000000 \<noteq> 3400000000001 / 2 \<and>
   Number_of_string example_runtime ''-2000000000'' = Num (- 2000000000) \<and>
   \<bar>- 2000000000 :: real\<bar> \<ge> 1000000000 \<and> \<bar>- 2000000000 :: real\<bar> < 1000000000000 \<and>
   parseTimestamp example_runtime ''-2000000000'' = None"
  by (simp add: parseTimestamp_def parseDateString_def replaceSlashes_def isEpochLike_def
      epochMillis_def newDate_def example_defs)

text \<open>
  Claim C2, amended. For every input that is not empty after trimming and converts to a
  number \<open>n\<close> with \<open>1e9 \<le> n < 1e15\<close>: when \<open>n \<ge> 1e12\<close>, \<open>parseTimestamp\<close> returns
  \<open>n\<close> milliseconds since the epoch, cut to whole milliseconds; when \<open>n < 1e12\<close> it
  returns the double product \<open>n * 1000\<close>, which lies within \<open>1/8\<close> of the exact product,
  cut to whole milliseconds. The timestamp is exactly \<open>n\<close> seconds, or \<open>n\<close>
  milliseconds, when that is a whole number of milliseconds. The string
  \<^verbatim>\<open>1700000000.001\<close> gives the time value 1700000000001.
\<close>

theorem epoch_seconds_or_millis:
  "ts \<noteq> [] \<and> String_trim rt ts \<noteq> [] \<and> Number_of_string rt (String_trim rt ts) = Num n \<and>
   1000000000 \<le> n \<and> n < 1000000000000000 \<longrightarrow>
     (1000000000000 \<le> n \<longrightarrow> parseTimestamp rt ts = Some \<lfloor>n\<rfloor>) \<and>
     (n < 1000000000000 \<longrightarrow>
        (\<exists>y. fl (n * 1000) = Num y \<and> \<bar>y - n * 1000\<bar> \<le> 1 / 8 \<and>
             parseTimestamp rt ts = Some \<lfloor>y\<rfloor>)) \<and>
     (n < 1000000000000 \<and> n * 1000 \<in> \<int> \<longrightarrow>
        map_option real_of_int (parseTimestamp rt ts) = Some (n * 1000)) \<and>
     (1000000000000 \<le> n \<and> n \<in> \<int> \<longrightarrow>
        map_option real_of_int (parseTimestamp rt ts) = Some n)"
proof
  assume a: "ts \<noteq> [] \<and> String_trim rt ts \<noteq> [] \<and> Number_of_string rt (String_trim rt ts) = Num n \<and>
   1000000000 \<le> n \<and> n < 1000000000000000"
  then have p: "parseTimestamp rt ts = newDate (epochMillis n)"
    using parseTimestamp_epoch [of ts rt n] by (simp add: isEpochLike_def)
  have ms: "parseTimestamp rt ts = Some \<lfloor>n\<rfloor>" if "1000000000000 \<le> n"
    using that a newDate_millis [of n] by (simp add: p epochMillis_def)
  have sec: "\<exists>y. fl (n * 1000) = Num y \<and> \<bar>y - n * 1000\<bar> \<le> 1 / 8 \<and>
             parseTimestamp rt ts = Some \<lfloor>y\<rfloor>" if "n < 1000000000000"
  proof -
    from a have "1000000000 \<le> n" by simp
    from epoch_product [OF this that] obtain y where
      y: "fl (n * 1000) = Num y" "\<bar>y - n * 1000\<bar> \<le> 1 / 8" "newDate (Num y) = Some \<lfloor>y\<rfloor>" by blast
    have "parseTimestamp rt ts = Some \<lfloor>y\<rfloor>" using that y(1,3) by (simp add: p epochMillis_def)
    then show ?thesis using y(1,2) by blast
  qed
  have whole: "map_option real_of_int (parseTimestamp rt ts) = Some (n * 1000)"
    if "n < 1000000000000" "n * 1000 \<in> \<int>"
  proof -
    from that(2) obtain k :: int where k: "n * 1000 = of_int k" by (auto elim: Ints_cases)
    have "real_of_int \<bar>k\<bar> \<le> real_of_int (2 ^ 53)" using that(1) a k [symmetric] by simp
    then have "\<bar>k\<bar> \<le> 2 ^ 53" by (simp only: of_int_le_iff)
    from fl_of_int [OF this] have f: "fl (n * 1000) = Num (of_int k)" by (simp add: k)
    note s = sec [OF that(1)]
    obtain y where y: "fl (n * 1000) = Num y" "parseTimestamp rt ts = Some \<lfloor>y\<rfloor>"
      using s by blast
    then have "y = of_int k" using f by simp
    then show ?thesis using y(2) k by simp
  qed
  have wholems: "map_option real_of_int (parseTimestamp rt ts) = Some n"
    if "1000000000000 \<le> n" "n \<in> \<int>"
    using ms [OF that(1)] that(2) by (auto elim: Ints_cases)
  show "(1000000000000 \<le> n \<longrightarrow> parseTimestamp rt ts = Some \<lfloor>n\<rfloor>) \<and>
     (n < 1000000000000 \<longrightarrow>
        (\<exists>y. fl (n * 1000) = Num y \<and> \<bar>y - n * 1000\<bar> \<le> 1 / 8 \<and>
             parseTimestamp rt ts = Some \<lfloor>y\<rfloor>)) \<and>
     (n < 1000000000000 \<and> n * 1000 \<in> \<int> \<longrightarrow>
        map_option real_of_int (parseTimestamp rt ts) = Some (n * 1000)) \<and>
     (1000000000000 \<le> n \<and> n \<in> \<int> \<longrightarrow>
        map_option real_of_int (parseTimestamp rt ts) = Some n)"
    using ms sec whole wholems by blast
qed

theorem epoch_seconds_or_millis_witness:
  "''1700000000'' \<noteq> [] \<and> String_trim example_runtime ''1700000000'' \<noteq> [] \<and>
   Number_of_string example_runtime (String_trim example_runtime ''1700000000'') = Num 1700000000 \<and>
   (1000000000::real) \<le> 1700000000 \<and> (1700000000::real) < 1000000000000 \<and>
   map_option real_of_int (parseTimestamp example_runtime ''1700000000'') = Some (1700000000 * 1000) \<and>
   parseTimestamp example_runtime ''1700000000000'' = Some 1700000000000 \<and>
   Number_of_string example_runtime (String_trim example_runtime ''1700000000.001'')
     = Num (3565158400002097 / 2097152) \<and>
   fl (3565158400002097 / 2097152 * 1000) = Num 1700000000001 \<and>
   parseTimestamp example_runtime ''1700000000.001'' = Some 1700000000001"
proof -
  have h: "''1700000000'' \<noteq> [] \<and> String_trim example_runtime ''1700000000'' \<noteq> [] \<and>
      Number_of_string example_runtime (String_trim example_runtime ''1700000000'') = Num 1700000000"
    by (simp add: example_defs)
  have r: "(1000000000::real) \<le> 1700000000 \<and> (1700000000::real) < 1000000000000000 \<and>
      (1700000000::real) < 1000000000000"
    by simp
  have w: "(1700000000 * 1000 :: real) \<in> \<int>" by simp
  have h2: "''1700000000000'' \<noteq> [] \<and> String_trim example_runtime ''1700000000000'' \<noteq> [] \<and>
      Number_of_string example_runtime (String_trim example_runtime ''1700000000000'')
        = Num 1700000000000"
    by (simp add: example_defs)
  have r2: "(1000000000::real) \<le> 1700000000000 \<and> (1700000000000::real) < 1000000000000000 \<and>
      (1000000000000::real) \<le> 1700000000000"
    by simp
  have f2: "\<lfloor>1700000000000 :: real\<rfloor> = 1700000000000" by simp
  have h3: "''1700000000.001'' \<noteq> [] \<and> String_trim example_runtime ''1700000000.001'' \<noteq> [] \<and>
      Number_of_string example_runtime (String_trim example_runtime ''1700000000.001'')
        = Num (3565158400002097 / 2097152)"
    by (simp add: example_defs)
  have r3: "(1000000000::real) \<le> 3565158400002097 / 2097152 \<and>
      (3565158400002097 / 2097152 :: real) < 1000000000000000 \<and>
      (3565158400002097 / 2097152 :: real) < 1000000000000"
    by simp
  have f3: "\<lfloor>1700000000001 :: real\<rfloor> = 1700000000001" by simp
  have "map_option real_of_int (parseTimestamp example_runtime ''1700000000'')
        = Some (1700000000 * 1000)"
    using epoch_seconds_or_millis [of "''1700000000''" example_runtime 1700000000] h r w by blast
  moreover have "parseTimestamp example_runtime ''1700000000000'' = Some \<lfloor>1700000000000 :: real\<rfloor>"
    using epoch_seconds_or_millis [of "''1700000000000''" example_runtime 1700000000000] h2 r2
    by blast
  moreover have "\<exists>y. fl (3565158400002097 / 2097152 * 1000) = Num y \<and>
      parseTimestamp example_runtime ''1700000000.001'' = Some \<lfloor>y\<rfloor>"
    using epoch_seconds_or_millis
      [of "''1700000000.001''" example_runtime "3565158400002097 / 2097152"] h3 r3
    by blast
  then have "parseTimestamp example_runtime ''1700000000.001'' = Some \<lfloor>1700000000001 :: real\<rfloor>"
    by (auto simp only: product_fraction jsnum.inject)
  ultimately show ?thesis
    unfolding f2 f3 using h r h3 product_fraction by blast
qed

end
